theory Spec2Isabelle
  imports Complex_Main "HOL-Library.Word"
begin

section \<open>Data model\<close>

text \<open>
  The cost model works on \<^verbatim>\<open>float\<close> values (predictor outputs, power factors,
  utilisations). They are modelled by the real number a finite float denotes, and float
  arithmetic by exact arithmetic on the reals; the element-wise SHAVE kernel, whose result
  depends on the rounding of its float32 operations, is modelled in float32.
  Comparisons and \<^verbatim>\<open>ceil\<close> are exact on floats, so the range check and the conversion
  to a cycle count are modelled exactly for finite values; NaN and the infinities are
  outside the model, except for the minus infinity that \<^verbatim>\<open>log2\<close> returns at 0, which
  the power-factor lookup models.
  Unsigned counters that cannot wrap in the modelled code are \<open>nat\<close>; the
  \<^verbatim>\<open>CyclesInterfaceType\<close> is a 32-bit word.
\<close>

type_synonym CyclesInterfaceType = "32 word"

text \<open>
  Modelled from the spec: the enumerations and the tensor and workload structures of
  \<^verbatim>\<open>vpu/types.h\<close>, which is not among the sources. The constructors carry the names
  the sources use (\<^verbatim>\<open>VPUDevice::VPU_2_7\<close>, \<^verbatim>\<open>Operation::AVEPOOL\<close>, ...), in the
  order of the enumeration; \<open>device_rank\<close> is the underlying integer that
  \<^verbatim>\<open>workload.device >= VPUDevice::VPU_2_7\<close> compares.
\<close>

datatype VPUDevice = VPU_2_0 | VPU_2_1 | VPU_2_7 | VPU_4_0 | VPU_Unknown

fun device_rank :: "VPUDevice \<Rightarrow> nat" where
  "device_rank VPU_2_0 = 0"
| "device_rank VPU_2_1 = 1"
| "device_rank VPU_2_7 = 2"
| "device_rank VPU_4_0 = 3"
| "device_rank VPU_Unknown = 4"

datatype Operation =
  CONVOLUTION | DW_CONVOLUTION | ELTWISE | MAXPOOL | AVEPOOL | CM_CONVOLUTION | OP_Invalid

datatype DataType = UINT8 | INT8 | FLOAT16 | BFLOAT16

datatype ExecutionMode = VECTOR | MATRIX | VECTOR_FP16 | CUBOID_16x16 | CUBOID_8x16 | CUBOID_4x16

text \<open>
  A tensor: its shape \<open>(x, y, channels, batch)\<close> and its data type.
  \<^verbatim>\<open>set_shape\<close> replaces the whole shape array and nothing else.
\<close>

record VPUTensor =
  shape :: "nat \<times> nat \<times> nat \<times> nat"
  dtype :: DataType

definition tensor_x :: "VPUTensor \<Rightarrow> nat" where
  "tensor_x t = (case shape t of (x, y, c, b) \<Rightarrow> x)"

definition tensor_y :: "VPUTensor \<Rightarrow> nat" where
  "tensor_y t = (case shape t of (x, y, c, b) \<Rightarrow> y)"

definition channels :: "VPUTensor \<Rightarrow> nat" where
  "channels t = (case shape t of (x, y, c, b) \<Rightarrow> c)"

definition tensor_b :: "VPUTensor \<Rightarrow> nat" where
  "tensor_b t = (case shape t of (x, y, c, b) \<Rightarrow> b)"

definition set_shape :: "VPUTensor \<Rightarrow> nat \<times> nat \<times> nat \<times> nat \<Rightarrow> VPUTensor" where
  "set_shape t s = t\<lparr>shape := s\<rparr>"

text \<open>
  A DPU workload. \<^verbatim>\<open>inputs\<close> and \<^verbatim>\<open>outputs\<close> are fixed-size arrays whose element 0
  always exists; the modelled code reads and writes element 0 only, which is the field
  \<open>inputs_0\<close> (\<open>outputs_0\<close>) here.
\<close>

record DPUWorkload =
  device :: VPUDevice
  op :: Operation
  inputs_0 :: VPUTensor
  outputs_0 :: VPUTensor
  kernels :: "nat \<times> nat"
  strides :: "nat \<times> nat"
  padding :: "nat \<times> nat \<times> nat \<times> nat"
  execution_mode :: ExecutionMode

text \<open>
  Modelled from the spec: the error sentinels of \<^verbatim>\<open>vpu/cycles_interface_types.h\<close>,
  which is not among the sources. The spec reserves a high range of the 32-bit counter for
  them (values at or above \<open>2\<^sup>3\<^sup>2 - N\<close>), away from every plausible cycle count;
  \<open>NO_ERROR\<close> is the neutral value 0. \<open>isErrorCode\<close> tells the reserved range
  from cycle counts.
\<close>

definition NO_ERROR :: CyclesInterfaceType where
  "NO_ERROR = 0"

definition START_ERROR_RANGE :: CyclesInterfaceType where
  "START_ERROR_RANGE = 4294967295 - 1000"

definition ERROR_INPUT_TOO_BIG :: CyclesInterfaceType where
  "ERROR_INPUT_TOO_BIG = 4294967295"

definition ERROR_INVALID_INPUT_CONFIGURATION :: CyclesInterfaceType where
  "ERROR_INVALID_INPUT_CONFIGURATION = 4294967295 - 1"

definition ERROR_INVALID_INPUT_OPERATION :: CyclesInterfaceType where
  "ERROR_INVALID_INPUT_OPERATION = 4294967295 - 3"

definition ERROR_INVALID_OUTPUT_RANGE :: CyclesInterfaceType where
  "ERROR_INVALID_OUTPUT_RANGE = 4294967295 - 4"

definition isErrorCode :: "CyclesInterfaceType \<Rightarrow> bool" where
  "isErrorCode v \<longleftrightarrow> START_ERROR_RANGE < v"

text \<open>
  Modelled from the spec: the \<^verbatim>\<open>SanityReport\<close> of the validation headers, which are not
  among the sources: an error code and a text; usable iff the code is \<open>NO_ERROR\<close>.
  A default-constructed report holds \<open>NO_ERROR\<close> and no text.
\<close>

record SanityReport =
  report_value :: CyclesInterfaceType
  info :: string

definition is_usable :: "SanityReport \<Rightarrow> bool" where
  "is_usable r \<longleftrightarrow> report_value r = NO_ERROR"

definition default_SanityReport :: SanityReport where
  "default_SanityReport = \<lparr>report_value = NO_ERROR, info = []\<rparr>"

section \<open>The sanitizer's rewrites (vpu\_cost\_model.h)\<close>

text \<open>
  The three rewrites of \<^verbatim>\<open>VPUCostModel\<close> mutate the workload they are given; here each
  returns the new workload. The warnings they log are not modelled.
\<close>

definition avgpool_replace_by :: "DPUWorkload \<Rightarrow> DPUWorkload" where
  "avgpool_replace_by workload =
     (if op workload = AVEPOOL then workload\<lparr>op := DW_CONVOLUTION\<rparr> else workload)"

definition compressConv_replace_by_CM_CONV_VPU27 :: "DPUWorkload \<Rightarrow> DPUWorkload" where
  "compressConv_replace_by_CM_CONV_VPU27 workload =
     (if device_rank (device workload) \<ge> device_rank VPU_2_7 then
        (if op workload = CONVOLUTION \<and>
            (channels (inputs_0 workload) > 1 \<and> channels (inputs_0 workload) < 16)
         then workload\<lparr>op := CM_CONVOLUTION\<rparr>
         else workload)
      else workload)"

definition channels_preserving_operations_consistency_check :: "DPUWorkload \<Rightarrow> DPUWorkload" where
  "channels_preserving_operations_consistency_check workload =
     (if op workload = ELTWISE \<or> op workload = DW_CONVOLUTION \<or>
         op workload = MAXPOOL \<or> op workload = AVEPOOL
      then
        (if channels (inputs_0 workload) \<noteq> channels (outputs_0 workload)
         then workload\<lparr>inputs_0 :=
                set_shape (inputs_0 workload)
                  (tensor_x (inputs_0 workload), tensor_y (inputs_0 workload),
                   channels (outputs_0 workload), tensor_b (inputs_0 workload))\<rparr>
         else workload)
      else workload)"

section \<open>The collaborators of the cost model\<close>

type_synonym descriptor = "real list"

text \<open>
  Modelled from the spec: the \<^verbatim>\<open>LRUCache\<close> of \<^verbatim>\<open>core/cache.h\<close>, which is not among
  the sources. Its capacity is fixed at construction; \<open>cache_get\<close> is a lookup by the
  exact descriptor; \<open>cache_add\<close> puts the entry in front (most recent first), replaces
  an entry of the same key and evicts from the far end when the capacity is exceeded.
\<close>

record LRUCache =
  max_size :: nat
  entries :: "(descriptor \<times> real) list"

definition cache_get :: "LRUCache \<Rightarrow> descriptor \<Rightarrow> real option" where
  "cache_get c k = map_of (entries c) k"

definition cache_add :: "LRUCache \<Rightarrow> descriptor \<Rightarrow> real \<Rightarrow> LRUCache" where
  "cache_add c k v =
     c\<lparr>entries := take (max_size c) ((k, v) # filter (\<lambda>e. fst e \<noteq> k) (entries c))\<rparr>"

text \<open>
  The parts of \<^verbatim>\<open>VPUCostModel\<close> that live in headers outside the sources are
  parameters of the model, collected in one record:
  \<^item> \<open>nn_initialized\<close>: \<^verbatim>\<open>vpunn_runtime.initialized()\<close>;
  \<^item> \<open>model_batch_size\<close>: the batch dimension of the loaded model's input tensor;
  \<^item> \<open>descriptor_size\<close>: \<^verbatim>\<open>preprocessing.output_size()\<close>;
  \<^item> \<open>transform\<close>: the preprocessing of one workload into its descriptor;
  \<^item> \<open>predict\<close>: the inference runtime, a function of the descriptor;
  \<^item> \<open>check_and_sanitize\<close>: \<^verbatim>\<open>DPU_OperationSanitizer::check_and_sanitize\<close>, which
    takes the workload and the report and may change both;
  \<^item> \<open>DPUTheoreticalCycles\<close>, \<open>DPU_Power_IdealCycles\<close>,
    \<open>DPU_Efficency_IdealCycles\<close>: the analytic estimators of the base class
    (\<^verbatim>\<open>unsigned long\<close> results);
  \<^item> \<open>getOperationAndPowerVirusAdjustementFactor\<close>, \<open>get_PowerVirus_exceed_factor\<close>:
    the two queries that \<^verbatim>\<open>VPUCostModel\<close> makes to its power-factor table.
\<close>

record cost_model_env =
  nn_initialized :: bool
  model_batch_size :: nat
  descriptor_size :: nat
  transform :: "DPUWorkload \<Rightarrow> descriptor"
  predict :: "descriptor \<Rightarrow> real"
  check_and_sanitize :: "DPUWorkload \<Rightarrow> SanityReport \<Rightarrow> DPUWorkload \<times> SanityReport"
  DPUTheoreticalCycles :: "DPUWorkload \<Rightarrow> nat"
  DPU_Power_IdealCycles :: "DPUWorkload \<Rightarrow> nat"
  DPU_Efficency_IdealCycles :: "DPUWorkload \<Rightarrow> nat"
  getOperationAndPowerVirusAdjustementFactor :: "DPUWorkload \<Rightarrow> real"
  get_PowerVirus_exceed_factor :: "VPUDevice \<Rightarrow> real"

text \<open>
  The mutable members of \<^verbatim>\<open>VPUCostModel\<close>: the cache, the results buffer of the
  batched path, and a counter of the calls made to the inference runtime.
\<close>

record cost_model_state =
  cache :: LRUCache
  workloads_results_buffer :: "real list"
  predict_calls :: nat

section \<open>Sanitization and inference (vpu\_cost\_model.h)\<close>

definition sanitize_workload ::
  "cost_model_env \<Rightarrow> DPUWorkload \<Rightarrow> SanityReport \<Rightarrow> bool \<times> DPUWorkload \<times> SanityReport" where
  "sanitize_workload env workload result =
     (let w1 = avgpool_replace_by workload;
          w2 = compressConv_replace_by_CM_CONV_VPU27 w1;
          w3 = channels_preserving_operations_consistency_check w2;
          (w4, result') = check_and_sanitize env w3 result
      in (is_usable result', w4, result'))"

definition high_threshold :: real where
  "high_threshold = 4000000000"

definition low_threshold :: real where
  "low_threshold = 0"

definition is_NN_value_invalid :: "real \<Rightarrow> bool" where
  "is_NN_value_invalid nn_output_cycles =
     (if nn_output_cycles > high_threshold \<or> nn_output_cycles < low_threshold
      then True else False)"

definition default_NN_output :: real where
  "default_NN_output = - 1"

text \<open>The single-workload \<^verbatim>\<open>run_NN\<close>: cache lookup, the runtime on a miss.\<close>

definition run_NN :: "cost_model_env \<Rightarrow> cost_model_state \<Rightarrow> DPUWorkload \<Rightarrow> real \<times> cost_model_state" where
  "run_NN env st workload =
     (let vector = transform env workload in
      case cache_get (cache st) vector of
        None \<Rightarrow>
          (let infered_value = predict env vector in
           (infered_value,
            st\<lparr>cache := cache_add (cache st) vector infered_value,
               predict_calls := Suc (predict_calls st)\<rparr>))
      | Some cached_value \<Rightarrow> (cached_value, st))"

text \<open>
  The batched \<^verbatim>\<open>run_NN\<close>. \<open>resize\<close> is \<^verbatim>\<open>std::vector::resize\<close>; \<open>transform_batch\<close>
  is the preprocessing of all workloads at once, padded with zero descriptors to a whole
  number of batches; \<open>fill_batch\<close> is the inner loop that copies one batch of outputs
  into the buffer. The outer loop advances by the model's batch size and does not end
  when that is 0, so it is a partial function: \<open>None\<close> is "never returns".
\<close>

definition resize :: "real list \<Rightarrow> nat \<Rightarrow> real list" where
  "resize buf n = take n buf @ replicate (n - length buf) 0"

definition transform_batch :: "cost_model_env \<Rightarrow> DPUWorkload list \<Rightarrow> nat \<Rightarrow> descriptor list" where
  "transform_batch env workloads batch_size =
     map (transform env) workloads @
     replicate ((batch_size - length workloads mod batch_size) mod batch_size)
       (replicate (descriptor_size env) 0)"

definition fill_batch :: "real list \<Rightarrow> real list \<Rightarrow> nat \<Rightarrow> nat \<Rightarrow> real list" where
  "fill_batch buf hw_overhead_arr wl_idx end_idx =
     foldl (\<lambda>b idx. b[idx := hw_overhead_arr ! (idx - wl_idx)]) buf [wl_idx..<end_idx]"

definition batch_end_idx :: "nat \<Rightarrow> nat \<Rightarrow> nat \<Rightarrow> nat" where
  "batch_end_idx wl_idx batch_size n =
     (let complete_batch_end_idx = wl_idx + batch_size
      in if complete_batch_end_idx > n then n else complete_batch_end_idx)"

partial_function (option) run_NN_loop ::
  "cost_model_env \<Rightarrow> descriptor list \<Rightarrow> nat \<Rightarrow> nat \<Rightarrow> cost_model_state \<Rightarrow> cost_model_state option" where
  "run_NN_loop env vector n wl_idx st =
     (if wl_idx < n then
        run_NN_loop env vector n (wl_idx + model_batch_size env)
          (st\<lparr>workloads_results_buffer :=
                fill_batch (workloads_results_buffer st)
                  (map (predict env) (take (model_batch_size env) (drop wl_idx vector)))
                  wl_idx (batch_end_idx wl_idx (model_batch_size env) n),
              predict_calls := Suc (predict_calls st)\<rparr>)
      else Some st)"

declare run_NN_loop.simps [code]

definition run_NN_batch ::
  "cost_model_env \<Rightarrow> cost_model_state \<Rightarrow> DPUWorkload list \<Rightarrow> (real list \<times> cost_model_state) option" where
  "run_NN_batch env st workloads =
     (let st1 = st\<lparr>workloads_results_buffer :=
                    resize (workloads_results_buffer st) (length workloads)\<rparr>
      in if \<not> nn_initialized env then
           (let st2 = st1\<lparr>workloads_results_buffer :=
                           replicate (length workloads) default_NN_output\<rparr>
            in Some (workloads_results_buffer st2, st2))
         else
           (case run_NN_loop env (transform_batch env workloads (model_batch_size env))
                   (length workloads) 0 st1 of
              None \<Rightarrow> None
            | Some st2 \<Rightarrow> Some (workloads_results_buffer st2, st2)))"

text \<open>
  \<^verbatim>\<open>DPU_and_sanitize\<close> returns the cycles (or error code), the sanitized workload, the
  text of the report and the new state. The conversion of the theoretical cycles
  (\<^verbatim>\<open>unsigned long\<close>) to the 32-bit result is the narrowing \<open>of_nat\<close>.
\<close>

definition DPU_and_sanitize ::
  "cost_model_env \<Rightarrow> cost_model_state \<Rightarrow> DPUWorkload \<Rightarrow>
     CyclesInterfaceType \<times> DPUWorkload \<times> string \<times> cost_model_state" where
  "DPU_and_sanitize env st wl =
     (let is_inference_posible = nn_initialized env;
          (is_inference_relevant, wl', problems) = sanitize_workload env wl default_SanityReport;
          cycles = report_value problems
      in if is_inference_relevant then
           (if is_inference_posible then
              (let (nn_output_cycles, st') = run_NN env st wl' in
               if is_NN_value_invalid nn_output_cycles
               then (ERROR_INVALID_OUTPUT_RANGE, wl', info problems, st')
               else (word_of_int \<lceil>nn_output_cycles\<rceil>, wl', info problems, st'))
            else (of_nat (DPUTheoreticalCycles env wl'), wl', info problems, st))
         else (cycles, wl', info problems, st))"

definition DPU :: "cost_model_env \<Rightarrow> cost_model_state \<Rightarrow> DPUWorkload \<Rightarrow> CyclesInterfaceType \<times> cost_model_state" where
  "DPU env st wl = (case DPU_and_sanitize env st wl of (cycles, wl', dummy_info, st') \<Rightarrow> (cycles, st'))"

definition DPU_batch ::
  "cost_model_env \<Rightarrow> cost_model_state \<Rightarrow> DPUWorkload list \<Rightarrow>
     (CyclesInterfaceType list \<times> cost_model_state) option" where
  "DPU_batch env st workloads =
     (let number_of_workloads = length workloads;
          is_inference_posible = nn_initialized env;
          sanitization_results =
            map (\<lambda>wl. sanitize_workload env wl default_SanityReport) workloads;
          workloads' = map (\<lambda>(relevance, wl', problems). wl') sanitization_results
      in case run_NN_batch env st workloads' of
           None \<Rightarrow> None
         | Some (NN_results, st') \<Rightarrow>
             Some (map (\<lambda>idx.
                     (let wl = workloads' ! idx;
                          problems = snd (snd (sanitization_results ! idx));
                          is_inference_relevant = fst (sanitization_results ! idx);
                          theoretical_cycles = DPUTheoreticalCycles env wl;
                          cycles = report_value problems
                      in if is_inference_relevant then
                           (if is_inference_posible then
                              (let nn_output_cycles = NN_results ! idx in
                               if is_NN_value_invalid nn_output_cycles
                               then ERROR_INVALID_OUTPUT_RANGE
                               else word_of_int \<lceil>nn_output_cycles\<rceil>)
                            else of_nat theoretical_cycles)
                         else cycles))
                   [0..<number_of_workloads],
                   st'))"

section \<open>Utilization and activity factors (vpu\_cost\_model.h)\<close>

definition relative_mac_hw_utilization :: "CyclesInterfaceType \<Rightarrow> nat \<Rightarrow> real" where
  "relative_mac_hw_utilization real_cycles ideal_cycles =
     (if \<not> isErrorCode real_cycles \<and> real_cycles \<noteq> 0
      then real ideal_cycles / real (unat real_cycles)
      else 0)"

definition mac_hw_utilization ::
  "cost_model_env \<Rightarrow> cost_model_state \<Rightarrow> DPUWorkload \<Rightarrow> (DPUWorkload \<Rightarrow> nat) \<Rightarrow> real \<times> cost_model_state" where
  "mac_hw_utilization env st wl CalculateCycles =
     (case DPU_and_sanitize env st wl of
        (nn_output_cycles, w, dummy_info, st') \<Rightarrow>
          (relative_mac_hw_utilization nn_output_cycles (CalculateCycles w), st'))"

definition power_mac_hw_utilization ::
  "cost_model_env \<Rightarrow> cost_model_state \<Rightarrow> DPUWorkload \<Rightarrow> real \<times> cost_model_state" where
  "power_mac_hw_utilization env st wl = mac_hw_utilization env st wl (DPU_Power_IdealCycles env)"

definition efficiency_mac_hw_utilization ::
  "cost_model_env \<Rightarrow> cost_model_state \<Rightarrow> DPUWorkload \<Rightarrow> real \<times> cost_model_state" where
  "efficiency_mac_hw_utilization env st wl =
     mac_hw_utilization env st wl (DPU_Efficency_IdealCycles env)"

definition DPU_AgnosticActivityFactor_formula :: "real \<Rightarrow> real \<Rightarrow> real \<Rightarrow> real" where
  "DPU_AgnosticActivityFactor_formula power_factor_value reference_hw_util
       sparse_correction_factor_experimental =
     (reference_hw_util * power_factor_value) * sparse_correction_factor_experimental"

definition DPU_AgnosticActivityFactor ::
  "cost_model_env \<Rightarrow> DPUWorkload \<Rightarrow> real \<Rightarrow> real \<Rightarrow> real" where
  "DPU_AgnosticActivityFactor env wl reference_hw_util sparse_correction_factor_experimental =
     DPU_AgnosticActivityFactor_formula (getOperationAndPowerVirusAdjustementFactor env wl)
       reference_hw_util sparse_correction_factor_experimental"

definition DPU_PowerActivityFactor ::
  "cost_model_env \<Rightarrow> cost_model_state \<Rightarrow> DPUWorkload \<Rightarrow> real \<times> cost_model_state" where
  "DPU_PowerActivityFactor env st wl =
     (case power_mac_hw_utilization env st wl of
        (mac_utilization_rate, st') \<Rightarrow>
          (let rough_powerVirus_relative_af = DPU_AgnosticActivityFactor env wl mac_utilization_rate 1;
               maximum_acepted_af = get_PowerVirus_exceed_factor env (device wl);
               restricted_powerVirus_relative_af = min rough_powerVirus_relative_af maximum_acepted_af
           in (restricted_powerVirus_relative_af, st')))"

definition DPU_EfficiencyActivityFactor ::
  "cost_model_env \<Rightarrow> cost_model_state \<Rightarrow> DPUWorkload \<Rightarrow> real \<times> cost_model_state" where
  "DPU_EfficiencyActivityFactor env st wl =
     (case efficiency_mac_hw_utilization env st wl of
        (mac_utilization_rate, st') \<Rightarrow>
          (DPU_AgnosticActivityFactor env wl mac_utilization_rate 1, st'))"

section \<open>Element-wise SHAVE kernels (vpu/shave/elementwise.h)\<close>

text \<open>
  Modelled from the spec: the byte size of a tensor, \<open>x \<cdot> y \<cdot> channels \<cdot> batch \<cdot> bytes(dtype)\<close>
  (\<^verbatim>\<open>VPUTensor::size()\<close> is in \<^verbatim>\<open>vpu/types.h\<close>, not among the sources).
\<close>

fun dtype_to_bytes :: "DataType \<Rightarrow> nat" where
  "dtype_to_bytes UINT8 = 1"
| "dtype_to_bytes INT8 = 1"
| "dtype_to_bytes FLOAT16 = 2"
| "dtype_to_bytes BFLOAT16 = 2"

definition tensor_size :: "VPUTensor \<Rightarrow> nat" where
  "tensor_size t = tensor_x t * tensor_y t * channels t * tensor_b t * dtype_to_bytes (dtype t)"

text \<open>
  A software operation holds its device, its inputs and its outputs; an element-wise kernel
  is constructed with exactly one output, \<open>sw_outputs_0\<close>. The template arguments
  \<open>efficiency\<close> (thousandths of a byte per cycle) and \<open>latency\<close> are arguments of the
  functions.
\<close>

record SWOperation =
  sw_device :: VPUDevice
  sw_inputs :: "VPUTensor list"
  sw_outputs_0 :: VPUTensor

text \<open>
  The kernel works in single precision: \<^verbatim>\<open>float(efficiency) / 1000.0f\<close>, the cast of
  the size to \<^verbatim>\<open>float\<close> and the division are float32 operations, each rounded to the
  nearest float32, ties to even. A float32 value is modelled by its mantissa and exponent,
  with value \<open>mantissa \<cdot> 2\<^sup>e\<close>: zero has mantissa 0, every other value a 24-bit
  mantissa (\<open>f32_normal\<close>). The values of this kernel are never negative. The exponent
  is not bounded in the model: the size and the efficiency argument are 32-bit unsigned
  numbers in the code, so the efficiency is at least a thousandth and below \<open>2\<^sup>2\<^sup>3\<close>,
  and no value of the kernel is subnormal or beyond the range of \<^verbatim>\<open>float\<close>.
\<close>

type_synonym float32 = "nat \<times> int"

definition f32_val :: "float32 \<Rightarrow> real" where
  "f32_val f = real (fst f) * 2 powi (snd f)"

definition f32_normal :: "float32 \<Rightarrow> bool" where
  "f32_normal f \<longleftrightarrow> 2 ^ 23 \<le> fst f \<and> fst f < 2 ^ 24"

text \<open>The number of bits of a natural number.\<close>

fun bit_length :: "nat \<Rightarrow> nat" where
  "bit_length n = (if n = 0 then 0 else Suc (bit_length (n div 2)))"

declare bit_length.simps [simp del]

text \<open>The quotient \<open>N / D\<close> rounded to the nearest natural number, ties to the even one.\<close>

definition round_nearest_even :: "nat \<Rightarrow> nat \<Rightarrow> nat" where
  "round_nearest_even N D =
     (let q = N div D; r = N mod D
      in if 2 * r < D then q
         else if D < 2 * r then q + 1
         else if even q then q else q + 1)"

text \<open>Rounding can carry the mantissa to \<open>2\<^sup>2\<^sup>4\<close>; the exponent then goes up by one.\<close>

definition f32_normalize :: "float32 \<Rightarrow> float32" where
  "f32_normalize f = (if fst f = 2 ^ 24 then (2 ^ 23, snd f + 1) else f)"

text \<open>\<^verbatim>\<open>static_cast<float>\<close> of an unsigned integer.\<close>

definition f32_of_nat :: "nat \<Rightarrow> float32" where
  "f32_of_nat n =
     (if n = 0 then (0, 0)
      else let k = bit_length n
           in if k \<le> 24 then (n * 2 ^ (24 - k), int k - 24)
              else f32_normalize (round_nearest_even n (2 ^ (k - 24)), int k - 24))"

text \<open>The float32 division \<open>a / b\<close> of a value by a value that is not zero.\<close>

definition f32_div :: "float32 \<Rightarrow> float32 \<Rightarrow> float32" where
  "f32_div a b =
     (if fst a = 0 then (0, 0)
      else if fst b \<le> fst a
        then f32_normalize (round_nearest_even (fst a * 2 ^ 23) (fst b), snd a - snd b - 23)
        else f32_normalize (round_nearest_even (fst a * 2 ^ 24) (fst b), snd a - snd b - 24))"

definition getKernelEfficiency :: "nat \<Rightarrow> float32" where
  "getKernelEfficiency efficiency = f32_div (f32_of_nat efficiency) (f32_of_nat 1000)"

definition getLatency :: "nat \<Rightarrow> 32 word" where
  "getLatency latency = of_nat latency"

text \<open>
  The C library's \<^verbatim>\<open>round\<close> on a float32 value that is not negative: to the nearest
  integer, halves away from zero.
\<close>

definition c_round :: "float32 \<Rightarrow> int" where
  "c_round f =
     (if 0 \<le> snd f then int (fst f) * 2 ^ nat (snd f)
      else (2 * int (fst f) + 2 ^ nat (- snd f)) div (2 * 2 ^ nat (- snd f)))"

text \<open>
  \<^verbatim>\<open>cycles()\<close>. The quotient is not a finite number when the efficiency is 0, and the
  conversion to \<^verbatim>\<open>unsigned int\<close> has no defined result for a value of \<open>2\<^sup>3\<^sup>2\<close> or more:
  the model returns \<open>None\<close> there. The addition of the latency is unsigned, modulo \<open>2\<^sup>3\<^sup>2\<close>.
\<close>

definition SHVElementwise_cycles :: "nat \<Rightarrow> nat \<Rightarrow> SWOperation \<Rightarrow> 32 word option" where
  "SHVElementwise_cycles efficiency latency swo =
     (let size = f32_of_nat (tensor_size (sw_outputs_0 swo)) in
      if fst (getKernelEfficiency efficiency) = 0 then None
      else if c_round (f32_div size (getKernelEfficiency efficiency)) \<ge> 2 ^ 32 then None
      else Some (word_of_int (c_round (f32_div size (getKernelEfficiency efficiency)))
                 + getLatency latency))"

section \<open>The power-factor table (vpu/power.h)\<close>

text \<open>
  A \<^verbatim>\<open>std::map<unsigned int, float>\<close> is the list of its entries in ascending key order,
  the order in which the code iterates over it. \<^verbatim>\<open>std::map::at\<close> throws
  \<^verbatim>\<open>std::out_of_range\<close> for an absent key.
\<close>

type_synonym pf_map = "(nat \<times> real) list"
type_synonym lut_t = "(Operation \<times> pf_map) list"

datatype lut_failure = out_of_range | not_finite

definition table_at :: "pf_map \<Rightarrow> nat \<Rightarrow> lut_failure + real" where
  "table_at table k = (case map_of table k of None \<Rightarrow> Inl out_of_range | Some v \<Rightarrow> Inr v)"

definition vpu_2_0_values :: lut_t where
  "vpu_2_0_values =
     [(CONVOLUTION, [(4, 0.87), (5, 0.92), (6, 1.0), (7, 0.95), (8, 0.86), (9, 0.87)]),
      (DW_CONVOLUTION, [(6, 5.84)]),
      (AVEPOOL, [(6, 32.60)]),
      (MAXPOOL, [(6, 5.29)]),
      (ELTWISE, [(7, 232.71)])]"

definition vpu_2_7_values :: lut_t where
  "vpu_2_7_values =
     [(CONVOLUTION, [(4, 1.97), (7, 1.20), (8, 1.08), (9, 1.07), (10, 1.01), (11, 0.97)]),
      (DW_CONVOLUTION, [(6, 1.43)]),
      (AVEPOOL, [(6, 0.29)]),
      (MAXPOOL, [(6, 1.15)]),
      (ELTWISE, [(8, 0.11)])]"

definition pf_lut :: "(VPUDevice \<times> lut_t) list" where
  "pf_lut = [(VPU_2_0, vpu_2_0_values), (VPU_2_7, vpu_2_7_values)]"

record VPUPowerFactorLUT =
  input_ch :: nat
  op_type :: Operation
  vpu_device :: VPUDevice

definition getScaledValue :: "real \<Rightarrow> bool \<Rightarrow> VPUDevice \<Rightarrow> real" where
  "getScaledValue v fp_comp dev =
     (if dev = VPU_2_0 \<and> fp_comp then v * 0.87
      else if dev = VPU_2_7 \<and> \<not> fp_comp then v * 0.79
      else v)"

text \<open>
  \<^verbatim>\<open>log2((float)input_ch)\<close> is minus infinity for 0 channels and a finite number
  otherwise. \<open>key_le\<close> and \<open>key_ge\<close> are the comparisons of a key with it.
\<close>

datatype log2_value = MinusInfinity | Finite real

definition log2f :: "nat \<Rightarrow> log2_value" where
  "log2f n = (if n = 0 then MinusInfinity else Finite (log 2 (real n)))"

fun key_le :: "nat \<Rightarrow> log2_value \<Rightarrow> bool" where
  "key_le k MinusInfinity = False"
| "key_le k (Finite x) = (real k \<le> x)"

fun key_ge :: "nat \<Rightarrow> log2_value \<Rightarrow> bool" where
  "key_ge k MinusInfinity = True"
| "key_ge k (Finite x) = (real k \<ge> x)"

definition max_ch_log2 :: nat where
  "max_ch_log2 = nat \<lceil>log 2 (8192 :: real)\<rceil>"

text \<open>
  The search loop of \<^verbatim>\<open>getValueInterpolation\<close>, with its \<^verbatim>\<open>break\<close>: it returns the
  final \<open>(smaller, greater)\<close> (\<open>greater0\<close> is the variable \<^verbatim>\<open>greater\<close>).
\<close>

fun neighbours :: "log2_value \<Rightarrow> pf_map \<Rightarrow> nat \<Rightarrow> nat \<Rightarrow> nat \<times> nat" where
  "neighbours input_ch_log2 [] smaller greater0 = (smaller, greater0)"
| "neighbours input_ch_log2 ((k, v) # rest) smaller greater0 =
     (let smaller' = (if key_le k input_ch_log2 \<and> k > smaller then k else smaller);
          greater' = (if key_ge k input_ch_log2 \<and> k < greater0 then k else greater0)
      in if smaller' = greater' then (smaller', greater')
         else neighbours input_ch_log2 rest smaller' greater')"

text \<open>
  The interval is an unsigned difference (modulo \<open>2\<^sup>3\<^sup>2\<close>). When it is positive, both
  \<^verbatim>\<open>table.at\<close> calls are made, and either may throw. Interpolating at minus infinity
  gives no finite number: \<open>not_finite\<close>.
\<close>

definition getValueInterpolation :: "VPUPowerFactorLUT \<Rightarrow> pf_map \<Rightarrow> lut_failure + real" where
  "getValueInterpolation lut table =
     (let input_ch_log2 = log2f (input_ch lut);
          (smaller, greater0) = neighbours input_ch_log2 table 0 max_ch_log2;
          interval = real ((2 ^ 32 + greater0 - smaller) mod 2 ^ 32)
      in if interval > 0 then
           (case (table_at table smaller, table_at table greater0) of
              (Inr fs, Inr fg) \<Rightarrow>
                (case input_ch_log2 of
                   Finite x \<Rightarrow>
                     Inr ((real greater0 - x) / interval * fs + (x - real smaller) / interval * fg)
                 | MinusInfinity \<Rightarrow> Inl not_finite)
            | (Inl e, _) \<Rightarrow> Inl e
            | (_, Inl e) \<Rightarrow> Inl e)
         else table_at table smaller)"

text \<open>The two loops of \<^verbatim>\<open>getValue\<close>: the last matching device, then every matching operation.\<close>

fun find_device_table :: "(VPUDevice \<times> lut_t) list \<Rightarrow> VPUDevice \<Rightarrow> lut_t \<Rightarrow> lut_t" where
  "find_device_table [] dev device_table = device_table"
| "find_device_table ((d, t) # rest) dev device_table =
     find_device_table rest dev (if d = dev then t else device_table)"

fun getValue_loop :: "VPUPowerFactorLUT \<Rightarrow> bool \<Rightarrow> lut_t \<Rightarrow> real \<Rightarrow> lut_failure + real" where
  "getValue_loop lut fp_comp [] pf_value = Inr pf_value"
| "getValue_loop lut fp_comp ((operation, op_values_map) # rest) pf_value =
     (if operation = op_type lut then
        (case getValueInterpolation lut op_values_map of
           Inl e \<Rightarrow> Inl e
         | Inr v \<Rightarrow> getValue_loop lut fp_comp rest (getScaledValue v fp_comp (vpu_device lut)))
      else getValue_loop lut fp_comp rest pf_value)"

definition getValue :: "VPUPowerFactorLUT \<Rightarrow> bool \<Rightarrow> lut_failure + real" where
  "getValue lut fp_comp =
     getValue_loop lut fp_comp (find_device_table pf_lut (vpu_device lut) []) 0"

text \<open>
  The entries of the nested table for a device and an operation, if there are any: the
  table that the claims about the lookup speak of.
\<close>

definition lut_entries :: "VPUDevice \<Rightarrow> Operation \<Rightarrow> pf_map option" where
  "lut_entries dev operation =
     (case map_of pf_lut dev of None \<Rightarrow> None | Some t \<Rightarrow> map_of t operation)"

section \<open>Concrete instances\<close>

text \<open>
  A tensor of 56 by 56 with the given channels, a workload on it, and an instance of the
  collaborators: the descriptor is the pair of channel counts, the sanitizer rejects only
  the invalid operation and changes no workload, and the analytic estimators are constant.
\<close>

definition example_tensor :: "nat \<Rightarrow> VPUTensor" where
  "example_tensor c = \<lparr>shape = (56, 56, c, 1), dtype = UINT8\<rparr>"

definition example_workload :: "VPUDevice \<Rightarrow> Operation \<Rightarrow> nat \<Rightarrow> nat \<Rightarrow> DPUWorkload" where
  "example_workload dev operation ic oc =
     \<lparr>device = dev, op = operation,
      inputs_0 = example_tensor ic, outputs_0 = example_tensor oc,
      kernels = (3, 3), strides = (1, 1), padding = (1, 1, 1, 1),
      execution_mode = CUBOID_16x16\<rparr>"

definition example_sanitizer :: "DPUWorkload \<Rightarrow> SanityReport \<Rightarrow> DPUWorkload \<times> SanityReport" where
  "example_sanitizer wl r =
     (wl, r\<lparr>report_value :=
              (if op wl = OP_Invalid then ERROR_INVALID_INPUT_OPERATION else NO_ERROR)\<rparr>)"

definition example_env :: "bool \<Rightarrow> nat \<Rightarrow> (descriptor \<Rightarrow> real) \<Rightarrow> cost_model_env" where
  "example_env initialized batch_size predictor =
     \<lparr>nn_initialized = initialized,
      model_batch_size = batch_size,
      descriptor_size = 2,
      transform = (\<lambda>wl. [real (channels (inputs_0 wl)), real (channels (outputs_0 wl))]),
      predict = predictor,
      check_and_sanitize = example_sanitizer,
      DPUTheoreticalCycles = (\<lambda>wl. 1000),
      DPU_Power_IdealCycles = (\<lambda>wl. 500),
      DPU_Efficency_IdealCycles = (\<lambda>wl. 600),
      getOperationAndPowerVirusAdjustementFactor = (\<lambda>wl. 1),
      get_PowerVirus_exceed_factor = (\<lambda>dev. 1)\<rparr>"

definition example_state :: cost_model_state where
  "example_state =
     \<lparr>cache = \<lparr>max_size = 4, entries = []\<rparr>, workloads_results_buffer = [], predict_calls = 0\<rparr>"

text \<open>A software operation whose single output holds the given number of bytes.\<close>

definition example_sw_operation :: "nat \<Rightarrow> SWOperation" where
  "example_sw_operation n =
     \<lparr>sw_device = VPU_2_7,
      sw_inputs = [\<lparr>shape = (n, 1, 1, 1), dtype = UINT8\<rparr>],
      sw_outputs_0 = \<lparr>shape = (n, 1, 1, 1), dtype = UINT8\<rparr>\<rparr>"

section \<open>Properties of the sanitizer's rewrites\<close>

lemma op_channels_check [simp]:
  "op (channels_preserving_operations_consistency_check wl) = op wl"
  by (simp add: channels_preserving_operations_consistency_check_def)

lemma sanitized_workload_eq:
  "fst (snd (sanitize_workload env wl r)) =
     fst (check_and_sanitize env
       (channels_preserving_operations_consistency_check
          (compressConv_replace_by_CM_CONV_VPU27 (avgpool_replace_by wl))) r)"
  by (simp add: sanitize_workload_def Let_def split: prod.splits)

lemma set_shape_same:
  "channels t = c \<Longrightarrow> set_shape t (tensor_x t, tensor_y t, c, tensor_b t) = t"
  by (cases "shape t")
     (auto simp: set_shape_def tensor_x_def tensor_y_def channels_def tensor_b_def)

lemma channels_check_preserving:
  "op w \<in> {ELTWISE, DW_CONVOLUTION, MAXPOOL, AVEPOOL} \<Longrightarrow>
   channels_preserving_operations_consistency_check w =
     w\<lparr>inputs_0 := set_shape (inputs_0 w)
          (tensor_x (inputs_0 w), tensor_y (inputs_0 w), channels (outputs_0 w),
           tensor_b (inputs_0 w))\<rparr>"
  unfolding channels_preserving_operations_consistency_check_def
  by (auto simp: set_shape_same)

lemma tensors_of_op_rewrites [simp]:
  "inputs_0 (avgpool_replace_by w) = inputs_0 w"
  "outputs_0 (avgpool_replace_by w) = outputs_0 w"
  "inputs_0 (compressConv_replace_by_CM_CONV_VPU27 w) = inputs_0 w"
  "outputs_0 (compressConv_replace_by_CM_CONV_VPU27 w) = outputs_0 w"
  by (simp_all add: avgpool_replace_by_def compressConv_replace_by_CM_CONV_VPU27_def)

lemma example_sanitizer_keeps:
  "op (fst (check_and_sanitize (example_env i b p) w r)) = op w"
  "shape (inputs_0 (fst (check_and_sanitize (example_env i b p) w r))) = shape (inputs_0 w)"
  "shape (outputs_0 (fst (check_and_sanitize (example_env i b p) w r))) = shape (outputs_0 w)"
  by (simp_all add: example_env_def example_sanitizer_def)

text \<open>
  Claim C3. A workload on a device at or above VPU 2.7 with operation CONVOLUTION and
  more than 1 and fewer than 16 input channels has operation CM\_CONVOLUTION after
  sanitization. On every other workload the compressed-convolution rewrite changes
  nothing, and the operation after sanitization is the one the AVEPOOL rewrite leaves.
  The sanitizer object called last is a parameter; it is assumed to leave the operation
  as it is.
\<close>

theorem compressed_conv_rewrite:
  assumes san: "\<And>w r. op (fst (check_and_sanitize env w r)) = op w"
  shows "(device_rank (device wl) \<ge> device_rank VPU_2_7 \<and> op wl = CONVOLUTION
            \<and> 1 < channels (inputs_0 wl) \<and> channels (inputs_0 wl) < 16
          \<longrightarrow> op (fst (snd (sanitize_workload env wl r))) = CM_CONVOLUTION)
       \<and> (\<not> (device_rank (device wl) \<ge> device_rank VPU_2_7 \<and> op wl = CONVOLUTION
            \<and> 1 < channels (inputs_0 wl) \<and> channels (inputs_0 wl) < 16)
          \<longrightarrow> compressConv_replace_by_CM_CONV_VPU27 wl = wl
            \<and> op (fst (snd (sanitize_workload env wl r)))
                = (if op wl = AVEPOOL then DW_CONVOLUTION else op wl))"
  by (auto simp: sanitized_workload_eq san avgpool_replace_by_def
        compressConv_replace_by_CM_CONV_VPU27_def)

theorem compressed_conv_rewrite_witness:
  "op (fst (snd (sanitize_workload (example_env True 2 (\<lambda>d. 0))
        (example_workload VPU_2_7 CONVOLUTION 8 64) default_SanityReport))) = CM_CONVOLUTION
   \<and> compressConv_replace_by_CM_CONV_VPU27 (example_workload VPU_2_0 CONVOLUTION 8 64)
       = example_workload VPU_2_0 CONVOLUTION 8 64
   \<and> op (fst (snd (sanitize_workload (example_env True 2 (\<lambda>d. 0))
        (example_workload VPU_2_7 CONVOLUTION 16 64) default_SanityReport))) = CONVOLUTION"
proof -
  have san: "\<And>w r. op (fst (check_and_sanitize (example_env True 2 (\<lambda>d. 0)) w r)) = op w"
    by (rule example_sanitizer_keeps)
  have fields:
    "device (example_workload VPU_2_7 CONVOLUTION 8 64) = VPU_2_7"
    "op (example_workload VPU_2_7 CONVOLUTION 8 64) = CONVOLUTION"
    "channels (inputs_0 (example_workload VPU_2_7 CONVOLUTION 8 64)) = 8"
    "device (example_workload VPU_2_0 CONVOLUTION 8 64) = VPU_2_0"
    "op (example_workload VPU_2_7 CONVOLUTION 16 64) = CONVOLUTION"
    "channels (inputs_0 (example_workload VPU_2_7 CONVOLUTION 16 64)) = 16"
    by (simp_all add: example_workload_def example_tensor_def channels_def)
  show ?thesis
    using compressed_conv_rewrite [of "example_env True 2 (\<lambda>d. 0)"
        "example_workload VPU_2_7 CONVOLUTION 8 64" default_SanityReport, OF san]
      compressed_conv_rewrite [of "example_env True 2 (\<lambda>d. 0)"
        "example_workload VPU_2_0 CONVOLUTION 8 64" default_SanityReport, OF san]
      compressed_conv_rewrite [of "example_env True 2 (\<lambda>d. 0)"
        "example_workload VPU_2_7 CONVOLUTION 16 64" default_SanityReport, OF san]
    by (simp add: fields)
qed

text \<open>
  Claim C4. When the operation of the sanitized workload is channel preserving (ELTWISE,
  DW\_CONVOLUTION, MAXPOOL, AVEPOOL), its input 0 has as many channels as its output 0:
  the shape of input 0 is the original one with the channels replaced by those of the
  original output 0 (x, y and batch as they were), and the shape of output 0 is unchanged.
  The consistency rewrite itself changes nothing but the shape of input 0. The sanitizer
  object called last is a parameter; it is assumed to leave the operation and the two
  shapes as they are.
\<close>

theorem channel_preserving_consistency:
  assumes san: "\<And>w r. op (fst (check_and_sanitize env w r)) = op w
                    \<and> shape (inputs_0 (fst (check_and_sanitize env w r))) = shape (inputs_0 w)
                    \<and> shape (outputs_0 (fst (check_and_sanitize env w r))) = shape (outputs_0 w)"
  shows "(op (fst (snd (sanitize_workload env wl r))) \<in> {ELTWISE, DW_CONVOLUTION, MAXPOOL, AVEPOOL}
         \<longrightarrow> channels (inputs_0 (fst (snd (sanitize_workload env wl r))))
               = channels (outputs_0 (fst (snd (sanitize_workload env wl r))))
           \<and> shape (inputs_0 (fst (snd (sanitize_workload env wl r))))
               = (tensor_x (inputs_0 wl), tensor_y (inputs_0 wl), channels (outputs_0 wl),
                  tensor_b (inputs_0 wl))
           \<and> shape (outputs_0 (fst (snd (sanitize_workload env wl r)))) = shape (outputs_0 wl))
       \<and> (op wl \<in> {ELTWISE, DW_CONVOLUTION, MAXPOOL, AVEPOOL}
         \<longrightarrow> channels_preserving_operations_consistency_check wl
               = wl\<lparr>inputs_0 := (inputs_0 wl)\<lparr>shape :=
                       (tensor_x (inputs_0 wl), tensor_y (inputs_0 wl), channels (outputs_0 wl),
                        tensor_b (inputs_0 wl))\<rparr>\<rparr>)"
proof (intro conjI impI)
  let ?w2 = "compressConv_replace_by_CM_CONV_VPU27 (avgpool_replace_by wl)"
  let ?w3 = "channels_preserving_operations_consistency_check ?w2"
  let ?w4 = "fst (snd (sanitize_workload env wl r))"
  assume "op ?w4 \<in> {ELTWISE, DW_CONVOLUTION, MAXPOOL, AVEPOOL}"
  then have pres: "op ?w2 \<in> {ELTWISE, DW_CONVOLUTION, MAXPOOL, AVEPOOL}"
    by (simp add: sanitized_workload_eq san)
  have w4: "?w4 = fst (check_and_sanitize env ?w3 r)"
    by (rule sanitized_workload_eq)
  have in3: "shape (inputs_0 ?w3) = (tensor_x (inputs_0 wl), tensor_y (inputs_0 wl),
      channels (outputs_0 wl), tensor_b (inputs_0 wl))"
    by (simp add: channels_check_preserving [OF pres] set_shape_def)
  have out3: "shape (outputs_0 ?w3) = shape (outputs_0 wl)"
    by (simp add: channels_check_preserving [OF pres])
  have in4: "shape (inputs_0 ?w4) = shape (inputs_0 ?w3)"
    and out4: "shape (outputs_0 ?w4) = shape (outputs_0 ?w3)"
    using san [of ?w3 r] by (simp_all add: w4)
  show "channels (inputs_0 ?w4) = channels (outputs_0 ?w4)"
    using in3 out3 in4 out4 by (simp add: channels_def)
  show "shape (inputs_0 ?w4) = (tensor_x (inputs_0 wl), tensor_y (inputs_0 wl),
          channels (outputs_0 wl), tensor_b (inputs_0 wl))"
    using in3 in4 by simp
  show "shape (outputs_0 ?w4) = shape (outputs_0 wl)"
    using out3 out4 by simp
next
  assume "op wl \<in> {ELTWISE, DW_CONVOLUTION, MAXPOOL, AVEPOOL}"
  then show "channels_preserving_operations_consistency_check wl
       = wl\<lparr>inputs_0 := (inputs_0 wl)\<lparr>shape :=
               (tensor_x (inputs_0 wl), tensor_y (inputs_0 wl), channels (outputs_0 wl),
                tensor_b (inputs_0 wl))\<rparr>\<rparr>"
    by (simp add: channels_check_preserving set_shape_def)
qed

theorem channel_preserving_consistency_witness:
  "op (fst (snd (sanitize_workload (example_env True 2 (\<lambda>d. 0))
        (example_workload VPU_2_7 MAXPOOL 32 64) default_SanityReport))) = MAXPOOL
   \<and> channels (inputs_0 (fst (snd (sanitize_workload (example_env True 2 (\<lambda>d. 0))
        (example_workload VPU_2_7 MAXPOOL 32 64) default_SanityReport)))) = 64
   \<and> channels (outputs_0 (fst (snd (sanitize_workload (example_env True 2 (\<lambda>d. 0))
        (example_workload VPU_2_7 MAXPOOL 32 64) default_SanityReport)))) = 64
   \<and> shape (inputs_0 (fst (snd (sanitize_workload (example_env True 2 (\<lambda>d. 0))
        (example_workload VPU_2_7 MAXPOOL 32 64) default_SanityReport)))) = (56, 56, 64, 1)
   \<and> channels_preserving_operations_consistency_check (example_workload VPU_2_7 MAXPOOL 32 64)
       = example_workload VPU_2_7 MAXPOOL 64 64"
proof -
  have san: "\<And>w r. op (fst (check_and_sanitize (example_env True 2 (\<lambda>d. 0)) w r)) = op w
           \<and> shape (inputs_0 (fst (check_and_sanitize (example_env True 2 (\<lambda>d. 0)) w r)))
               = shape (inputs_0 w)
           \<and> shape (outputs_0 (fst (check_and_sanitize (example_env True 2 (\<lambda>d. 0)) w r)))
               = shape (outputs_0 w)"
    by (simp add: example_sanitizer_keeps)
  have opm: "op (fst (snd (sanitize_workload (example_env True 2 (\<lambda>d. 0))
        (example_workload VPU_2_7 MAXPOOL 32 64) default_SanityReport))) = MAXPOOL"
    by (simp add: sanitized_workload_eq example_sanitizer_keeps avgpool_replace_by_def
          compressConv_replace_by_CM_CONV_VPU27_def example_workload_def)
  have fields:
    "op (example_workload VPU_2_7 MAXPOOL 32 64) = MAXPOOL"
    "tensor_x (inputs_0 (example_workload VPU_2_7 MAXPOOL 32 64)) = 56"
    "tensor_y (inputs_0 (example_workload VPU_2_7 MAXPOOL 32 64)) = 56"
    "tensor_b (inputs_0 (example_workload VPU_2_7 MAXPOOL 32 64)) = 1"
    "channels (outputs_0 (example_workload VPU_2_7 MAXPOOL 32 64)) = 64"
    by (simp_all add: example_workload_def example_tensor_def channels_def tensor_x_def
          tensor_y_def tensor_b_def)
  have out_shape: "shape (outputs_0 (example_workload VPU_2_7 MAXPOOL 32 64)) = (56, 56, 64, 1)"
    by (simp add: example_workload_def example_tensor_def)
  have upd: "(example_workload VPU_2_7 MAXPOOL 32 64)
       \<lparr>inputs_0 := (inputs_0 (example_workload VPU_2_7 MAXPOOL 32 64))\<lparr>shape := (56, 56, 64, 1)\<rparr>\<rparr>
      = example_workload VPU_2_7 MAXPOOL 64 64"
    by (simp add: example_workload_def example_tensor_def)
  note inst = channel_preserving_consistency [of "example_env True 2 (\<lambda>d. 0)"
        "example_workload VPU_2_7 MAXPOOL 32 64" default_SanityReport, OF san]
  from inst opm have
    ins: "shape (inputs_0 (fst (snd (sanitize_workload (example_env True 2 (\<lambda>d. 0))
        (example_workload VPU_2_7 MAXPOOL 32 64) default_SanityReport)))) = (56, 56, 64, 1)"
    and outs: "shape (outputs_0 (fst (snd (sanitize_workload (example_env True 2 (\<lambda>d. 0))
        (example_workload VPU_2_7 MAXPOOL 32 64) default_SanityReport)))) = (56, 56, 64, 1)"
    unfolding fields out_shape by simp_all
  from inst have rw: "channels_preserving_operations_consistency_check
        (example_workload VPU_2_7 MAXPOOL 32 64) = example_workload VPU_2_7 MAXPOOL 64 64"
    unfolding fields upd by simp
  show ?thesis
    using opm rw by (simp add: channels_def ins outs)
qed

text \<open>
  Claim C8. A workload with operation AVEPOOL has operation DW\_CONVOLUTION after
  sanitization. The rewrite sets the operation field of an AVEPOOL workload and nothing
  else, and leaves a workload of any other operation as it is. The sanitizer object called
  last is a parameter; it is assumed to leave the operation as it is.
\<close>

theorem avgpool_rewrite:
  assumes san: "\<And>w r. op (fst (check_and_sanitize env w r)) = op w"
  shows "(op wl = AVEPOOL \<longrightarrow> op (fst (snd (sanitize_workload env wl r))) = DW_CONVOLUTION)
       \<and> (op wl = AVEPOOL \<longrightarrow> avgpool_replace_by wl = wl\<lparr>op := DW_CONVOLUTION\<rparr>)
       \<and> (op wl \<noteq> AVEPOOL \<longrightarrow> avgpool_replace_by wl = wl)"
  by (simp add: sanitized_workload_eq san avgpool_replace_by_def
        compressConv_replace_by_CM_CONV_VPU27_def)

theorem avgpool_rewrite_witness:
  "op (example_workload VPU_2_7 AVEPOOL 256 256) = AVEPOOL
   \<and> op (fst (snd (sanitize_workload (example_env True 2 (\<lambda>d. 0))
        (example_workload VPU_2_7 AVEPOOL 256 256) default_SanityReport))) = DW_CONVOLUTION
   \<and> avgpool_replace_by (example_workload VPU_2_7 AVEPOOL 256 256)
       = (example_workload VPU_2_7 AVEPOOL 256 256)\<lparr>op := DW_CONVOLUTION\<rparr>
   \<and> avgpool_replace_by (example_workload VPU_2_7 MAXPOOL 256 256)
       = example_workload VPU_2_7 MAXPOOL 256 256"
proof -
  have san: "\<And>w r. op (fst (check_and_sanitize (example_env True 2 (\<lambda>d. 0)) w r)) = op w"
    by (rule example_sanitizer_keeps)
  have fields: "op (example_workload VPU_2_7 AVEPOOL 256 256) = AVEPOOL"
    "op (example_workload VPU_2_7 MAXPOOL 256 256) = MAXPOOL"
    by (simp_all add: example_workload_def)
  show ?thesis
    using avgpool_rewrite [of "example_env True 2 (\<lambda>d. 0)"
        "example_workload VPU_2_7 AVEPOOL 256 256" default_SanityReport, OF san]
      avgpool_rewrite [of "example_env True 2 (\<lambda>d. 0)"
        "example_workload VPU_2_7 MAXPOOL 256 256" default_SanityReport, OF san]
    by (simp add: fields)
qed

section \<open>Properties of the single-workload path\<close>

lemmas example_defs =
  sanitize_workload_def avgpool_replace_by_def compressConv_replace_by_CM_CONV_VPU27_def
  channels_preserving_operations_consistency_check_def example_env_def
  example_sanitizer_def example_workload_def example_state_def example_tensor_def
  default_SanityReport_def is_usable_def NO_ERROR_def run_NN_def cache_get_def cache_add_def
  channels_def Let_def

lemma DPU_not_usable:
  "\<not> fst (sanitize_workload env wl default_SanityReport) \<Longrightarrow>
   DPU env st wl = (report_value (snd (snd (sanitize_workload env wl default_SanityReport))), st)"
  by (cases "sanitize_workload env wl default_SanityReport")
     (auto simp: DPU_def DPU_and_sanitize_def Let_def split: prod.splits)

lemma DPU_not_initialized:
  "fst (sanitize_workload env wl default_SanityReport) \<Longrightarrow> \<not> nn_initialized env \<Longrightarrow>
   DPU env st wl =
     (of_nat (DPUTheoreticalCycles env (fst (snd (sanitize_workload env wl default_SanityReport)))), st)"
  by (cases "sanitize_workload env wl default_SanityReport")
     (auto simp: DPU_def DPU_and_sanitize_def Let_def split: prod.splits)

lemma DPU_inference:
  "fst (sanitize_workload env wl default_SanityReport) \<Longrightarrow> nn_initialized env \<Longrightarrow>
   fst (DPU env st wl) =
     (if is_NN_value_invalid
           (fst (run_NN env st (fst (snd (sanitize_workload env wl default_SanityReport)))))
      then ERROR_INVALID_OUTPUT_RANGE
      else word_of_int
        \<lceil>fst (run_NN env st (fst (snd (sanitize_workload env wl default_SanityReport))))\<rceil>)"
  by (cases "sanitize_workload env wl default_SanityReport")
     (auto simp: DPU_def DPU_and_sanitize_def Let_def split: prod.splits)

lemma usable_iff:
  "fst (sanitize_workload env wl r) \<longleftrightarrow>
   report_value (snd (snd (sanitize_workload env wl r))) = NO_ERROR"
  by (simp add: sanitize_workload_def Let_def is_usable_def split: prod.splits)

lemma uint_cycles_of_valid:
  fixes raw :: real
  assumes "0 \<le> raw" "raw \<le> 4000000000"
  shows "uint (word_of_int \<lceil>raw\<rceil> :: 32 word) = \<lceil>raw\<rceil>"
proof -
  have "0 \<le> \<lceil>raw\<rceil>" using assms(1) by (simp add: ceiling_le_iff le_ceiling_iff)
  moreover have "\<lceil>raw\<rceil> \<le> 4000000000" using assms(2) by (simp add: ceiling_le_iff)
  ultimately show ?thesis
    by (simp add: uint_word_of_int take_bit_int_eq_self)
qed

text \<open>
  Claim C1, as the code has it. For a workload that passes sanitization while the
  predictor is initialized, \<open>DPU\<close> returns \<open>ERROR_INVALID_OUTPUT_RANGE\<close> exactly when
  the raw predictor output is below 0 or above \<open>high_threshold\<close> (4000000000); both 0 and
  \<open>high_threshold\<close> itself are accepted, and for every accepted output the result is its
  ceiling as a cycle count.
\<close>

theorem nn_output_range_check:
  assumes "fst (sanitize_workload env wl default_SanityReport)" and "nn_initialized env"
  shows "(fst (DPU env st wl) = ERROR_INVALID_OUTPUT_RANGE \<longleftrightarrow>
            fst (run_NN env st (fst (snd (sanitize_workload env wl default_SanityReport)))) < 0
          \<or> fst (run_NN env st (fst (snd (sanitize_workload env wl default_SanityReport)))) > 4000000000)
       \<and> (0 \<le> fst (run_NN env st (fst (snd (sanitize_workload env wl default_SanityReport))))
          \<and> fst (run_NN env st (fst (snd (sanitize_workload env wl default_SanityReport)))) \<le> 4000000000
          \<longrightarrow> uint (fst (DPU env st wl))
                = \<lceil>fst (run_NN env st (fst (snd (sanitize_workload env wl default_SanityReport))))\<rceil>)"
proof -
  let ?raw = "fst (run_NN env st (fst (snd (sanitize_workload env wl default_SanityReport))))"
  have inv: "is_NN_value_invalid ?raw \<longleftrightarrow> ?raw < 0 \<or> ?raw > 4000000000"
    by (auto simp: is_NN_value_invalid_def high_threshold_def low_threshold_def)
  show ?thesis
  proof (cases "is_NN_value_invalid ?raw")
    case True
    then show ?thesis using inv by (auto simp: DPU_inference [OF assms])
  next
    case False
    then have rng: "0 \<le> ?raw" "?raw \<le> 4000000000" using inv by auto
    have u: "uint (fst (DPU env st wl)) = \<lceil>?raw\<rceil>"
      using False by (simp add: DPU_inference [OF assms] uint_cycles_of_valid [OF rng])
    have c: "\<lceil>?raw\<rceil> \<le> 4000000000" using rng(2) by (simp add: ceiling_le_iff)
    have e: "uint ERROR_INVALID_OUTPUT_RANGE = 4294967291"
      by (simp add: ERROR_INVALID_OUTPUT_RANGE_def)
    have "uint (fst (DPU env st wl)) \<noteq> uint ERROR_INVALID_OUTPUT_RANGE"
      unfolding u e using c by linarith
    then have "fst (DPU env st wl) \<noteq> ERROR_INVALID_OUTPUT_RANGE" by auto
    then show ?thesis using u rng inv False by auto
  qed
qed

theorem nn_output_range_check_witness:
  "fst (sanitize_workload (example_env True 2 (\<lambda>d. 25 / 2))
         (example_workload VPU_2_0 CONVOLUTION 16 16) default_SanityReport)
   \<and> nn_initialized (example_env True 2 (\<lambda>d. 25 / 2))
   \<and> fst (DPU (example_env True 2 (\<lambda>d. 25 / 2)) example_state
         (example_workload VPU_2_0 CONVOLUTION 16 16)) \<noteq> ERROR_INVALID_OUTPUT_RANGE
   \<and> uint (fst (DPU (example_env True 2 (\<lambda>d. 25 / 2)) example_state
         (example_workload VPU_2_0 CONVOLUTION 16 16))) = 13"
proof -
  have h1: "fst (sanitize_workload (example_env True 2 (\<lambda>d. 25 / 2))
         (example_workload VPU_2_0 CONVOLUTION 16 16) default_SanityReport)"
    by (simp add: example_defs)
  have h2: "nn_initialized (example_env True 2 (\<lambda>d. 25 / 2))"
    by (simp add: example_defs)
  have raw: "fst (run_NN (example_env True 2 (\<lambda>d. 25 / 2)) example_state
       (fst (snd (sanitize_workload (example_env True 2 (\<lambda>d. 25 / 2))
          (example_workload VPU_2_0 CONVOLUTION 16 16) default_SanityReport)))) = 25 / 2"
    by (simp add: example_defs)
  have c: "\<lceil>25 / 2 :: real\<rceil> = 13"
    by (simp add: ceiling_eq_iff)
  show ?thesis
    using nn_output_range_check [OF h1 h2, of example_state] h1 h2
    unfolding raw c by simp
qed

text \<open>
  The claim as written rejects a raw output equal to \<open>high_threshold\<close>. The code accepts
  it: with a predictor that answers 4000000000, \<open>DPU\<close> returns 4000000000 cycles.
\<close>

theorem nn_output_high_threshold_counterexample:
  "fst (sanitize_workload (example_env True 2 (\<lambda>d. 4000000000))
         (example_workload VPU_2_0 CONVOLUTION 16 16) default_SanityReport)
   \<and> nn_initialized (example_env True 2 (\<lambda>d. 4000000000))
   \<and> fst (run_NN (example_env True 2 (\<lambda>d. 4000000000)) example_state
         (fst (snd (sanitize_workload (example_env True 2 (\<lambda>d. 4000000000))
            (example_workload VPU_2_0 CONVOLUTION 16 16) default_SanityReport))))
       = high_threshold
   \<and> fst (DPU (example_env True 2 (\<lambda>d. 4000000000)) example_state
         (example_workload VPU_2_0 CONVOLUTION 16 16)) = 4000000000
   \<and> fst (DPU (example_env True 2 (\<lambda>d. 4000000000)) example_state
         (example_workload VPU_2_0 CONVOLUTION 16 16)) \<noteq> ERROR_INVALID_OUTPUT_RANGE"
  by (simp add: DPU_def DPU_and_sanitize_def sanitize_workload_def avgpool_replace_by_def
        compressConv_replace_by_CM_CONV_VPU27_def
        channels_preserving_operations_consistency_check_def example_env_def
        example_sanitizer_def example_workload_def example_state_def example_tensor_def
        default_SanityReport_def is_usable_def NO_ERROR_def run_NN_def cache_get_def
        is_NN_value_invalid_def high_threshold_def low_threshold_def
        ERROR_INVALID_OUTPUT_RANGE_def channels_def Let_def)

text \<open>
  Claim C9. When sanitization reports a problem, \<open>DPU\<close> returns the error code of the
  report and leaves the state as it was: the cache is not consulted and the predictor is
  not called. When sanitization passes and the predictor is not initialized, \<open>DPU\<close>
  returns the theoretical cycles of the sanitized workload, converted to the 32-bit result
  type (the same number whenever it fits), again without touching the state.
\<close>

theorem sanitize_error_and_fallback:
  "(\<not> fst (sanitize_workload env wl default_SanityReport) \<longrightarrow>
      DPU env st wl
        = (report_value (snd (snd (sanitize_workload env wl default_SanityReport))), st)
      \<and> report_value (snd (snd (sanitize_workload env wl default_SanityReport))) \<noteq> NO_ERROR)
   \<and> (fst (sanitize_workload env wl default_SanityReport) \<and> \<not> nn_initialized env \<longrightarrow>
      DPU env st wl
        = (of_nat (DPUTheoreticalCycles env
             (fst (snd (sanitize_workload env wl default_SanityReport)))), st)
      \<and> (DPUTheoreticalCycles env (fst (snd (sanitize_workload env wl default_SanityReport)))
            < 2 ^ 32 \<longrightarrow>
          unat (fst (DPU env st wl))
            = DPUTheoreticalCycles env
                (fst (snd (sanitize_workload env wl default_SanityReport)))))"
  using usable_iff [of env wl default_SanityReport]
  by (auto simp: DPU_not_usable DPU_not_initialized unat_of_nat)

theorem sanitize_error_and_fallback_witness:
  "\<not> fst (sanitize_workload (example_env True 2 (\<lambda>d. 7))
         (example_workload VPU_2_7 OP_Invalid 16 16) default_SanityReport)
   \<and> DPU (example_env True 2 (\<lambda>d. 7)) example_state (example_workload VPU_2_7 OP_Invalid 16 16)
       = (ERROR_INVALID_INPUT_OPERATION, example_state)
   \<and> fst (sanitize_workload (example_env False 2 (\<lambda>d. 7))
         (example_workload VPU_2_7 CONVOLUTION 16 16) default_SanityReport)
   \<and> \<not> nn_initialized (example_env False 2 (\<lambda>d. 7))
   \<and> DPU (example_env False 2 (\<lambda>d. 7)) example_state (example_workload VPU_2_7 CONVOLUTION 16 16)
       = (1000, example_state)"
proof -
  have bad: "sanitize_workload (example_env True 2 (\<lambda>d. 7))
         (example_workload VPU_2_7 OP_Invalid 16 16) default_SanityReport
       = (False, example_workload VPU_2_7 OP_Invalid 16 16,
          \<lparr>report_value = ERROR_INVALID_INPUT_OPERATION, info = []\<rparr>)"
    by (simp add: example_defs ERROR_INVALID_INPUT_OPERATION_def)
  have good: "sanitize_workload (example_env False 2 (\<lambda>d. 7))
         (example_workload VPU_2_7 CONVOLUTION 16 16) default_SanityReport
       = (True, example_workload VPU_2_7 CONVOLUTION 16 16, \<lparr>report_value = 0, info = []\<rparr>)"
    by (simp add: example_defs)
  have env: "\<not> nn_initialized (example_env False 2 (\<lambda>d. 7))"
    "DPUTheoreticalCycles (example_env False 2 (\<lambda>d. 7)) = (\<lambda>wl. 1000)"
    by (simp_all add: example_env_def)
  show ?thesis
    using sanitize_error_and_fallback [of "example_env True 2 (\<lambda>d. 7)"
        "example_workload VPU_2_7 OP_Invalid 16 16" example_state]
      sanitize_error_and_fallback [of "example_env False 2 (\<lambda>d. 7)"
        "example_workload VPU_2_7 CONVOLUTION 16 16" example_state]
    unfolding bad good by (simp add: env)
qed

section \<open>Properties of the activity factors\<close>

text \<open>
  Claim C7. The power activity factor is the minimum of the product of the (power) MAC
  utilization and the power factor, and the device's power-virus exceed factor, so it never
  exceeds that ceiling; the efficiency activity factor is the product of the (efficiency)
  MAC utilization and the power factor, with no ceiling.
\<close>

theorem activity_factor_clamp:
  "fst (DPU_PowerActivityFactor env st wl)
     = min (fst (power_mac_hw_utilization env st wl)
              * getOperationAndPowerVirusAdjustementFactor env wl)
           (get_PowerVirus_exceed_factor env (device wl))
   \<and> fst (DPU_PowerActivityFactor env st wl) \<le> get_PowerVirus_exceed_factor env (device wl)
   \<and> fst (DPU_EfficiencyActivityFactor env st wl)
     = fst (efficiency_mac_hw_utilization env st wl)
         * getOperationAndPowerVirusAdjustementFactor env wl"
  by (simp add: DPU_PowerActivityFactor_def DPU_EfficiencyActivityFactor_def
        DPU_AgnosticActivityFactor_def DPU_AgnosticActivityFactor_formula_def Let_def
        split: prod.splits)


theorem activity_factor_clamp_witness:
  "fst (DPU_PowerActivityFactor (example_env True 2 (\<lambda>d. 200)) example_state
         (example_workload VPU_2_7 CONVOLUTION 16 16)) = 1
   \<and> fst (DPU_EfficiencyActivityFactor (example_env True 2 (\<lambda>d. 200)) example_state
         (example_workload VPU_2_7 CONVOLUTION 16 16)) = 3"
proof -
  have cyc: "DPU_and_sanitize (example_env True 2 (\<lambda>d. 200)) example_state
         (example_workload VPU_2_7 CONVOLUTION 16 16)
       = (200, example_workload VPU_2_7 CONVOLUTION 16 16, [],
          example_state\<lparr>cache := \<lparr>max_size = 4, entries = [([16, 16], 200)]\<rparr>,
                         predict_calls := 1\<rparr>)"
    by (simp add: DPU_and_sanitize_def example_defs is_NN_value_invalid_def
          high_threshold_def low_threshold_def)
  have pw: "fst (power_mac_hw_utilization (example_env True 2 (\<lambda>d. 200)) example_state
         (example_workload VPU_2_7 CONVOLUTION 16 16)) = 5 / 2"
    unfolding power_mac_hw_utilization_def mac_hw_utilization_def cyc
    by (simp add: relative_mac_hw_utilization_def isErrorCode_def START_ERROR_RANGE_def
          example_env_def)
  have ef: "fst (efficiency_mac_hw_utilization (example_env True 2 (\<lambda>d. 200)) example_state
         (example_workload VPU_2_7 CONVOLUTION 16 16)) = 3"
    unfolding efficiency_mac_hw_utilization_def mac_hw_utilization_def cyc
    by (simp add: relative_mac_hw_utilization_def isErrorCode_def START_ERROR_RANGE_def
          example_env_def)
  have env: "getOperationAndPowerVirusAdjustementFactor (example_env True 2 (\<lambda>d. 200)) = (\<lambda>wl. 1)"
    "get_PowerVirus_exceed_factor (example_env True 2 (\<lambda>d. 200)) = (\<lambda>dev. 1)"
    by (simp_all add: example_env_def)
  show ?thesis
    using activity_factor_clamp [of "example_env True 2 (\<lambda>d. 200)" example_state
        "example_workload VPU_2_7 CONVOLUTION 16 16"]
    unfolding pw ef env by simp
qed

section \<open>Properties of the power-factor table\<close>

subsection \<open>The search loop\<close>

lemma max_ch_log2_eq: "max_ch_log2 = 13"
proof -
  have "real (13::nat) = log 2 (real (8192::nat))"
    by (rule log2_of_power_eq) simp
  then have "log 2 (8192::real) = 13" by simp
  then show ?thesis by (simp add: max_ch_log2_def)
qed

lemma key_le_mono: "\<not> key_le m v \<Longrightarrow> m \<le> k \<Longrightarrow> \<not> key_le k v"
  by (cases v) auto

lemma not_key_le_ge: "\<not> key_le m v \<Longrightarrow> key_ge m v"
  by (cases v) auto

lemma neighbours_settled:
  "\<forall>k \<in> fst ` set T. \<not> key_le k v \<or> k \<le> s \<Longrightarrow>
   \<forall>k \<in> fst ` set T. \<not> key_ge k v \<or> g \<le> k \<Longrightarrow>
   neighbours v T s g = (s, g)"
  by (induction T) (auto simp: Let_def)

lemma neighbours_hit:
  "sorted_wrt (<) (map fst T) \<Longrightarrow> k \<in> fst ` set T \<Longrightarrow> s < k \<Longrightarrow> k < g \<Longrightarrow>
   neighbours (Finite (real k)) T s g = (k, k)"
proof (induction T arbitrary: s)
  case Nil
  then show ?case by simp
next
  case (Cons p rest)
  obtain k' v' where p: "p = (k', v')" by (cases p)
  show ?case
  proof (cases "k' = k")
    case True
    then show ?thesis using Cons.prems p by (simp add: Let_def)
  next
    case False
    then have mem: "k \<in> fst ` set rest" using Cons.prems(2) p by auto
    then have lt: "k' < k" using Cons.prems(1) p by auto
    have srt: "sorted_wrt (<) (map fst rest)" using Cons.prems(1) by simp
    have step: "neighbours (Finite (real k)) (p # rest) s g
        = neighbours (Finite (real k)) rest (if k' > s then k' else s) g"
      using lt Cons.prems(3,4) p by (auto simp: Let_def)
    show ?thesis
      unfolding step using Cons.IH [OF srt mem _ Cons.prems(4)] lt Cons.prems(3) by simp
  qed
qed

lemma neighbours_between:
  "sorted_wrt (<) (map fst T) \<Longrightarrow> b \<in> fst ` set T \<Longrightarrow> a \<in> fst ` set T \<or> s = a \<Longrightarrow>
   s \<le> a \<Longrightarrow> b < g \<Longrightarrow> real a < x \<Longrightarrow> x < real b \<Longrightarrow>
   \<forall>k \<in> fst ` set T. k \<le> a \<or> b \<le> k \<Longrightarrow>
   neighbours (Finite x) T s g = (a, b)"
proof (induction T arbitrary: s)
  case Nil
  then show ?case by simp
next
  case (Cons p rest)
  obtain k' v' where p: "p = (k', v')" by (cases p)
  have srt: "sorted_wrt (<) (map fst rest)" using Cons.prems(1) by simp
  have above: "\<forall>k \<in> fst ` set rest. k' < k" using Cons.prems(1) p by auto
  have ab: "a < b" using Cons.prems(6,7) by simp
  show ?case
  proof (cases "k' = b")
    case True
    have "a \<notin> fst ` set (p # rest)" using above ab True p by auto
    then have sa: "s = a" using Cons.prems(3) by blast
    have step: "neighbours (Finite x) (p # rest) s g = neighbours (Finite x) rest a b"
      using True sa p ab Cons.prems(5,6,7) by (auto simp: Let_def)
    have "neighbours (Finite x) rest a b = (a, b)"
      by (rule neighbours_settled) (use above True Cons.prems(7) in force)+
    then show ?thesis using step by simp
  next
    case False
    then have mem: "b \<in> fst ` set rest" using Cons.prems(2) p by auto
    then have "k' < b" using above by blast
    then have ka: "k' \<le> a" using Cons.prems(8) p by auto
    have step: "neighbours (Finite x) (p # rest) s g
        = neighbours (Finite x) rest (if k' > s then k' else s) g"
      using ka ab Cons.prems(4,5,6,7) p by (auto simp: Let_def)
    have a': "a \<in> fst ` set rest \<or> (if k' > s then k' else s) = a"
      using Cons.prems(3,4) ka p by auto
    have le': "(if k' > s then k' else s) \<le> a" using Cons.prems(4) ka by simp
    have adj: "\<forall>k \<in> fst ` set rest. k \<le> a \<or> b \<le> k" using Cons.prems(8) by simp
    show ?thesis
      unfolding step
      by (rule Cons.IH [OF srt mem a' le' Cons.prems(5) Cons.prems(6) Cons.prems(7) adj])
  qed
qed

lemma neighbours_below:
  "sorted_wrt (<) (map fst ((m, v) # rest)) \<Longrightarrow> \<not> key_le m xv \<Longrightarrow> s < m \<Longrightarrow> m < g \<Longrightarrow>
   neighbours xv ((m, v) # rest) s g = (s, m)"
proof -
  assume srt: "sorted_wrt (<) (map fst ((m, v) # rest))"
    and nle: "\<not> key_le m xv" and sm: "s < m" and mg: "m < g"
  have above: "\<forall>k \<in> fst ` set rest. m < k" using srt by auto
  have step: "neighbours xv ((m, v) # rest) s g = neighbours xv rest s m"
    using nle sm mg not_key_le_ge [OF nle] by (simp add: Let_def)
  have "neighbours xv rest s m = (s, m)"
  proof (rule neighbours_settled)
    show "\<forall>k\<in>fst ` set rest. \<not> key_le k xv \<or> k \<le> s"
      using above key_le_mono [OF nle] by (meson less_imp_le)
    show "\<forall>k\<in>fst ` set rest. \<not> key_ge k xv \<or> m \<le> k"
      using above by (meson less_imp_le)
  qed
  then show ?thesis using step by simp
qed

lemma neighbours_above:
  "\<forall>k \<in> fst ` set T. real k < x \<and> k < g \<Longrightarrow> s < g \<Longrightarrow>
   neighbours (Finite x) T s g = (Max (insert s (fst ` set T)), g)"
proof (induction T arbitrary: s)
  case Nil
  then show ?case by simp
next
  case (Cons p rest)
  obtain k' v' where p: "p = (k', v')" by (cases p)
  have k': "real k' < x" "k' < g" using Cons.prems(1) p by auto
  have step: "neighbours (Finite x) (p # rest) s g
      = neighbours (Finite x) rest (max s k') g"
    using k' Cons.prems(2) p by (auto simp: Let_def max_def)
  have "neighbours (Finite x) rest (max s k') g = (Max (insert (max s k') (fst ` set rest)), g)"
    by (rule Cons.IH) (use Cons.prems k' in auto)
  moreover have "Max (insert (max s k') (fst ` set rest)) = Max (insert s (fst ` set (p # rest)))"
    using p by (cases "fst ` set rest = {}") (auto simp: max.assoc max.commute max.left_commute)
  ultimately show ?case using step by simp
qed


lemma table_at_Some: "map_of T k = Some v \<Longrightarrow> table_at T k = Inr v"
  by (simp add: table_at_def)

lemma table_at_absent: "k \<notin> fst ` set T \<Longrightarrow> table_at T k = Inl out_of_range"
  by (simp add: table_at_def map_of_eq_None_iff [THEN iffD2])

lemma table_at_cases: "table_at T k = Inl out_of_range \<or> (\<exists>v. table_at T k = Inr v)"
  by (simp add: table_at_def split: option.splits)

lemma unsigned_diff_mod:
  fixes N :: nat
  assumes "s \<le> g" "g - s < N"
  shows "(N + g - s) mod N = g - s"
proof -
  have "N + g - s = N + (g - s)" using assms(1) by simp
  then have "(N + g - s) mod N = (g - s) mod N" by simp
  then show ?thesis using assms(2) by simp
qed

lemma unsigned_interval:
  assumes sg: "s \<le> g" and g: "g \<le> 13"
  shows "real (((2::nat) ^ 32 + g - s) mod 2 ^ 32) = real g - real s"
proof -
  have "(13::nat) < 2 ^ 32" by simp
  then have "g - s < (2::nat) ^ 32" using g by linarith
  then have "((2::nat) ^ 32 + g - s) mod 2 ^ 32 = g - s"
    by (rule unsigned_diff_mod [OF sg])
  then show ?thesis using sg by (simp only: of_nat_diff)
qed

lemma getValueInterpolation_unfold:
  assumes nb: "neighbours (log2f (input_ch lut)) T 0 13 = (s, g)" and sg: "s \<le> g" and g: "g \<le> 13"
  shows "getValueInterpolation lut T =
     (if s < g then
        (case (table_at T s, table_at T g) of
           (Inr fs, Inr fg) \<Rightarrow>
             (case log2f (input_ch lut) of
                Finite x \<Rightarrow>
                  Inr ((real g - x) / (real g - real s) * fs
                       + (x - real s) / (real g - real s) * fg)
              | MinusInfinity \<Rightarrow> Inl not_finite)
         | (Inl e, _) \<Rightarrow> Inl e
         | (_, Inl e) \<Rightarrow> Inl e)
      else table_at T s)"
proof -
  have iv: "real (((2::nat) ^ 32 + g - s) mod 2 ^ 32) = real g - real s"
    by (rule unsigned_interval [OF sg g])
  have pos: "0 < real g - real s \<longleftrightarrow> s < g" by auto
  show ?thesis
    unfolding getValueInterpolation_def Let_def max_ch_log2_eq nb prod.case iv pos ..
qed

lemma interpolation_hit:
  assumes "sorted_wrt (<) (map fst T)" "map_of T k = Some v" "0 < k" "k < 13"
    "log2f (input_ch lut) = Finite (real k)"
  shows "getValueInterpolation lut T = Inr v"
proof -
  have mem: "k \<in> fst ` set T" using assms(2) by (force dest: map_of_SomeD)
  have nb: "neighbours (log2f (input_ch lut)) T 0 13 = (k, k)"
    unfolding assms(5) by (rule neighbours_hit [OF assms(1) mem assms(3) assms(4)])
  show ?thesis
    using assms(4) by (simp add: getValueInterpolation_unfold [OF nb] table_at_Some [OF assms(2)])
qed

lemma interpolation_between:
  assumes "sorted_wrt (<) (map fst T)" "map_of T a = Some fa" "map_of T b = Some fb"
    "\<forall>k \<in> fst ` set T. k \<le> a \<or> b \<le> k" "b < 13"
    "log2f (input_ch lut) = Finite x" "real a < x" "x < real b"
  shows "getValueInterpolation lut T
         = Inr (((real b - x) * fa + (x - real a) * fb) / (real b - real a))"
proof -
  have ma: "a \<in> fst ` set T" using assms(2) by (force dest: map_of_SomeD)
  have mb: "b \<in> fst ` set T" using assms(3) by (force dest: map_of_SomeD)
  have ab: "a < b" using assms(7,8) by simp
  have nb: "neighbours (log2f (input_ch lut)) T 0 13 = (a, b)"
    unfolding assms(6)
    by (rule neighbours_between [OF assms(1) mb _ _ assms(5) assms(7) assms(8) assms(4)])
       (use ma in auto)
  have le: "a \<le> b" "b \<le> 13" using ab assms(5) by auto
  have frac: "(real b - x) / (real b - real a) * fa + (x - real a) / (real b - real a) * fb
      = ((real b - x) * fa + (x - real a) * fb) / (real b - real a)"
    by (simp add: add_divide_distrib)
  show ?thesis
    unfolding getValueInterpolation_unfold [OF nb le] table_at_Some [OF assms(2)]
      table_at_Some [OF assms(3)] assms(6)
    using ab frac by simp
qed

lemma interpolation_below:
  assumes "sorted_wrt (<) (map fst T)" "T \<noteq> []"
    "\<forall>k \<in> fst ` set T. \<not> key_le k (log2f (input_ch lut))"
    "\<forall>k \<in> fst ` set T. 0 < k \<and> k < 13"
  shows "neighbours (log2f (input_ch lut)) T 0 max_ch_log2 = (0, fst (hd T))
       \<and> getValueInterpolation lut T = Inl out_of_range"
proof -
  obtain m v rest where T: "T = (m, v) # rest" using assms(2) by (cases T) auto
  have m: "0 < m" "m < 13" "\<not> key_le m (log2f (input_ch lut))"
    using assms(3,4) T by auto
  have nb: "neighbours (log2f (input_ch lut)) T 0 13 = (0, m)"
    unfolding T by (rule neighbours_below) (use assms(1) m T in auto)
  have le: "0 \<le> m" "m \<le> 13" using m by auto
  have "0 \<notin> fst ` set T" using assms(4) by auto
  then have at0: "table_at T 0 = Inl out_of_range" by (rule table_at_absent)
  have "getValueInterpolation lut T = Inl out_of_range"
    unfolding getValueInterpolation_unfold [OF nb le] at0 using m(1) by simp
  then show ?thesis using nb by (simp add: max_ch_log2_eq T)
qed

lemma interpolation_above:
  assumes "log2f (input_ch lut) = Finite x" "\<forall>k \<in> fst ` set T. real k < x \<and> k < 13"
  shows "neighbours (log2f (input_ch lut)) T 0 max_ch_log2 = (Max (insert 0 (fst ` set T)), 13)
       \<and> getValueInterpolation lut T = Inl out_of_range"
proof -
  let ?M = "Max (insert 0 (fst ` set T))"
  have nb: "neighbours (log2f (input_ch lut)) T 0 13 = (?M, 13)"
    unfolding assms(1) by (rule neighbours_above) (use assms(2) in auto)
  have M: "?M < 13" using assms(2) by (subst Max_less_iff) auto
  have le: "?M \<le> 13" "(13::nat) \<le> 13" using M by auto
  have "13 \<notin> fst ` set T" using assms(2) by auto
  then have at13: "table_at T 13 = Inl out_of_range" by (rule table_at_absent)
  have "getValueInterpolation lut T = Inl out_of_range"
    unfolding getValueInterpolation_unfold [OF nb le] at13
    using M table_at_cases [of T ?M] by auto
  then show ?thesis using nb by (simp add: max_ch_log2_eq)
qed

lemma find_device_table_pf_lut:
  "find_device_table pf_lut dev [] =
     (case map_of pf_lut dev of None \<Rightarrow> [] | Some t \<Rightarrow> t)"
  by (cases dev) (simp_all add: pf_lut_def)

lemma getValue_no_entries:
  "lut_entries (vpu_device lut) (op_type lut) = None \<Longrightarrow> getValue lut fp_comp = Inr 0"
  by (cases "vpu_device lut"; cases "op_type lut")
     (simp_all add: getValue_def find_device_table_pf_lut lut_entries_def pf_lut_def
        vpu_2_0_values_def vpu_2_7_values_def)

lemma getValue_entries:
  "lut_entries (vpu_device lut) (op_type lut) = Some T \<Longrightarrow>
   getValue lut fp_comp =
     (case getValueInterpolation lut T of
        Inl e \<Rightarrow> Inl e
      | Inr v \<Rightarrow> Inr (getScaledValue v fp_comp (vpu_device lut)))"
  by (cases "vpu_device lut"; cases "op_type lut")
     (auto simp: getValue_def find_device_table_pf_lut lut_entries_def pf_lut_def
        vpu_2_0_values_def vpu_2_7_values_def split: sum.splits)

lemma lut_entries_wf:
  "lut_entries dev operation = Some T \<Longrightarrow>
   sorted_wrt (<) (map fst T) \<and> T \<noteq> [] \<and> (\<forall>k \<in> fst ` set T. 0 < k \<and> k < 13)"
  by (cases dev; cases operation)
     (auto simp: lut_entries_def pf_lut_def vpu_2_0_values_def vpu_2_7_values_def)


lemma log2f_power: "log2f (2 ^ k) = Finite (real k)"
proof -
  have "real k = log 2 (real ((2::nat) ^ k))"
    by (rule log2_of_power_eq) simp
  then show ?thesis by (simp add: log2f_def)
qed

lemma log2f_nonzero: "n \<noteq> 0 \<Longrightarrow> log2f n = Finite (log 2 (real n))"
  by (simp add: log2f_def)

lemma getScaledValue_factor:
  "getScaledValue v fp_comp dev =
     v * (if dev = VPU_2_0 \<and> fp_comp then 0.87
          else if dev = VPU_2_7 \<and> \<not> fp_comp then 0.79 else 1)"
  by (simp add: getScaledValue_def)

lemma lut_entries_2_0_conv:
  "lut_entries VPU_2_0 CONVOLUTION
     = Some [(4, 0.87), (5, 0.92), (6, 1.0), (7, 0.95), (8, 0.86), (9, 0.87)]"
  by (simp add: lut_entries_def pf_lut_def vpu_2_0_values_def)

lemma lut_entries_2_7_conv:
  "lut_entries VPU_2_7 CONVOLUTION
     = Some [(4, 1.97), (7, 1.20), (8, 1.08), (9, 1.07), (10, 1.01), (11, 0.97)]"
  by (simp add: lut_entries_def pf_lut_def vpu_2_7_values_def)

lemma lut_entries_4_0: "lut_entries VPU_4_0 operation = None"
  by (simp add: lut_entries_def pf_lut_def)

text \<open>
  Claim C6. With \<open>x\<close> the base-2 logarithm of the input channels:
  when the device or the operation has no entries in the table, \<open>getValue\<close> returns 0;
  when \<open>x\<close> is a key of the entries, it returns the entry of that key, scaled;
  when \<open>x\<close> lies strictly between two neighbouring keys \<open>s\<close> and \<open>g\<close>, it returns the
  interpolation \<open>((g - x) f(s) + (x - s) f(g)) / (g - s)\<close>, scaled.
  The scale is 0.87 for VPU 2.0 with floating-point compute, 0.79 for VPU 2.7 with integer
  compute, and 1 otherwise. For VPU 2.0, CONVOLUTION, 64 input channels and integer
  compute the result is exactly 1.
\<close>

theorem power_factor_lookup:
  "(lut_entries (vpu_device lut) (op_type lut) = None \<longrightarrow> getValue lut fp_comp = Inr 0)
   \<and> (\<forall>T k v. lut_entries (vpu_device lut) (op_type lut) = Some T \<and> map_of T k = Some v
          \<and> log2f (input_ch lut) = Finite (real k)
        \<longrightarrow> getValue lut fp_comp = Inr (getScaledValue v fp_comp (vpu_device lut)))
   \<and> (\<forall>T s g fs fg x. lut_entries (vpu_device lut) (op_type lut) = Some T
          \<and> map_of T s = Some fs \<and> map_of T g = Some fg
          \<and> (\<forall>k \<in> fst ` set T. k \<le> s \<or> g \<le> k)
          \<and> log2f (input_ch lut) = Finite x \<and> real s < x \<and> x < real g
        \<longrightarrow> getValue lut fp_comp
              = Inr (getScaledValue
                       (((real g - x) * fs + (x - real s) * fg) / (real g - real s))
                       fp_comp (vpu_device lut)))
   \<and> (input_ch lut \<noteq> 0 \<longrightarrow> log2f (input_ch lut) = Finite (log 2 (real (input_ch lut))))
   \<and> getScaledValue w fp_comp dev
       = w * (if dev = VPU_2_0 \<and> fp_comp then 0.87
              else if dev = VPU_2_7 \<and> \<not> fp_comp then 0.79 else 1)
   \<and> getValue \<lparr>input_ch = 64, op_type = CONVOLUTION, vpu_device = VPU_2_0\<rparr> False = Inr 1"
proof (intro conjI allI impI)
  assume "lut_entries (vpu_device lut) (op_type lut) = None"
  then show "getValue lut fp_comp = Inr 0" by (rule getValue_no_entries)
next
  fix T k v
  assume a: "lut_entries (vpu_device lut) (op_type lut) = Some T \<and> map_of T k = Some v
          \<and> log2f (input_ch lut) = Finite (real k)"
  then have mem: "k \<in> fst ` set T" by (force dest: map_of_SomeD)
  note wf = lut_entries_wf [OF a [THEN conjunct1]]
  have k: "0 < k" "k < 13" using wf mem by auto
  have "getValueInterpolation lut T = Inr v"
    by (rule interpolation_hit) (use a wf k in auto)
  then show "getValue lut fp_comp = Inr (getScaledValue v fp_comp (vpu_device lut))"
    by (simp add: getValue_entries [OF a [THEN conjunct1]])
next
  fix T s g fs fg x
  assume a: "lut_entries (vpu_device lut) (op_type lut) = Some T
          \<and> map_of T s = Some fs \<and> map_of T g = Some fg
          \<and> (\<forall>k \<in> fst ` set T. k \<le> s \<or> g \<le> k)
          \<and> log2f (input_ch lut) = Finite x \<and> real s < x \<and> x < real g"
  then have mem: "g \<in> fst ` set T" by (force dest: map_of_SomeD)
  note wf = lut_entries_wf [OF a [THEN conjunct1]]
  have g: "g < 13" using wf mem by auto
  have "getValueInterpolation lut T
      = Inr (((real g - x) * fs + (x - real s) * fg) / (real g - real s))"
    by (rule interpolation_between) (use a wf g in auto)
  then show "getValue lut fp_comp
      = Inr (getScaledValue (((real g - x) * fs + (x - real s) * fg) / (real g - real s))
               fp_comp (vpu_device lut))"
    by (simp add: getValue_entries [OF a [THEN conjunct1]])
next
  assume "input_ch lut \<noteq> 0"
  then show "log2f (input_ch lut) = Finite (log 2 (real (input_ch lut)))"
    by (rule log2f_nonzero)
next
  show "getScaledValue w fp_comp dev
       = w * (if dev = VPU_2_0 \<and> fp_comp then 0.87
              else if dev = VPU_2_7 \<and> \<not> fp_comp then 0.79 else 1)"
    by (rule getScaledValue_factor)
next
  let ?lut = "\<lparr>input_ch = 64, op_type = CONVOLUTION, vpu_device = VPU_2_0\<rparr>"
  have e: "lut_entries (vpu_device ?lut) (op_type ?lut)
     = Some [(4, 0.87), (5, 0.92), (6, 1.0), (7, 0.95), (8, 0.86), (9, 0.87)]"
    by (simp add: lut_entries_2_0_conv)
  have l: "log2f (input_ch ?lut) = Finite (real (6::nat))"
    using log2f_power [of 6] by simp
  have "getValueInterpolation ?lut [(4, 0.87), (5, 0.92), (6, 1.0), (7, 0.95), (8, 0.86), (9, 0.87)]
      = Inr 1"
    by (rule interpolation_hit [OF _ _ _ _ l]) simp_all
  then show "getValue ?lut False = Inr 1"
    by (simp add: getValue_entries [OF e] getScaledValue_def)
qed

theorem power_factor_lookup_witness:
  "5 < log 2 48 \<and> log 2 48 < 6
   \<and> getValue \<lparr>input_ch = 48, op_type = CONVOLUTION, vpu_device = VPU_2_0\<rparr> False
       = Inr ((6 - log 2 48) * 0.92 + (log 2 48 - 5) * 1.0)
   \<and> getValue \<lparr>input_ch = 128, op_type = CONVOLUTION, vpu_device = VPU_2_7\<rparr> False
       = Inr (1.20 * 0.79)
   \<and> getValue \<lparr>input_ch = 16, op_type = CONVOLUTION, vpu_device = VPU_4_0\<rparr> True = Inr 0"
proof -
  let ?A = "\<lparr>input_ch = 48, op_type = CONVOLUTION, vpu_device = VPU_2_0\<rparr>"
  let ?B = "\<lparr>input_ch = 128, op_type = CONVOLUTION, vpu_device = VPU_2_7\<rparr>"
  let ?C = "\<lparr>input_ch = 16, op_type = CONVOLUTION, vpu_device = VPU_4_0\<rparr>"
  let ?T20 = "[(4, 0.87), (5, 0.92), (6, 1.0), (7, 0.95), (8, 0.86), (9, 0.87)] :: pf_map"
  let ?T27 = "[(4, 1.97), (7, 1.20), (8, 1.08), (9, 1.07), (10, 1.01), (11, 0.97)] :: pf_map"
  have lo: "real (5::nat) < log 2 (real (48::nat))"
    by (rule less_log2_of_power) simp
  have hi: "log 2 (real (48::nat)) < real (6::nat)"
    by (rule log2_of_power_less) simp_all
  have nz: "input_ch ?A \<noteq> 0" by simp
  have xA: "log2f (input_ch ?A) = Finite (log 2 48)"
    using power_factor_lookup [of ?A False 0 VPU_2_0, THEN conjunct2, THEN conjunct2,
        THEN conjunct2, THEN conjunct1, rule_format, OF nz]
    by simp
  have eA: "lut_entries (vpu_device ?A) (op_type ?A) = Some ?T20"
    by (simp add: lut_entries_2_0_conv)
  have hypA: "lut_entries (vpu_device ?A) (op_type ?A) = Some ?T20
      \<and> map_of ?T20 5 = Some 0.92 \<and> map_of ?T20 6 = Some 1.0
      \<and> (\<forall>k \<in> fst ` set ?T20. k \<le> 5 \<or> 6 \<le> k)
      \<and> log2f (input_ch ?A) = Finite (log 2 48) \<and> real (5::nat) < log 2 48
      \<and> log 2 48 < real (6::nat)"
    using lo hi eA xA by simp
  have A: "getValue ?A False
      = Inr (getScaledValue
               (((real (6::nat) - log 2 48) * 0.92 + (log 2 48 - real (5::nat)) * 1.0)
                 / (real (6::nat) - real (5::nat))) False (vpu_device ?A))"
    using power_factor_lookup [of ?A False 0 VPU_2_0, THEN conjunct2, THEN conjunct2,
        THEN conjunct1, rule_format, OF hypA] .
  have xB: "log2f (input_ch ?B) = Finite (real (7::nat))"
    using log2f_power [of 7] by simp
  have hypB: "lut_entries (vpu_device ?B) (op_type ?B) = Some ?T27
      \<and> map_of ?T27 7 = Some 1.20 \<and> log2f (input_ch ?B) = Finite (real (7::nat))"
    using xB by (simp add: lut_entries_2_7_conv)
  have B: "getValue ?B False = Inr (getScaledValue 1.20 False (vpu_device ?B))"
    using power_factor_lookup [of ?B False 0 VPU_2_0, THEN conjunct2, THEN conjunct1,
        rule_format, OF hypB] .
  have hypC: "lut_entries (vpu_device ?C) (op_type ?C) = None"
    by (simp add: lut_entries_4_0)
  have C: "getValue ?C True = Inr 0"
    using power_factor_lookup [of ?C True 0 VPU_2_0, THEN conjunct1, rule_format, OF hypC] .
  show ?thesis
    using lo hi A B C by (simp add: getScaledValue_def)
qed

text \<open>
  Claim C10. For VPU 2.0, CONVOLUTION and 8 input channels (\<open>x = 3\<close>, below the smallest
  key 4), \<open>getValue\<close> raises \<open>out_of_range\<close>. In general, for a device and operation
  that have entries: when \<open>x\<close> is below every key (also for 0 channels), \<open>smaller\<close>
  stays 0, which is not a key, and the lookup raises \<open>out_of_range\<close>; when \<open>x\<close> is
  above every key, \<open>greater\<close> stays \<open>max_ch_log2 = 13\<close>, which is not a key, and the
  lookup raises \<open>out_of_range\<close>. It neither extrapolates nor returns 0 there.
\<close>

theorem lookup_outside_keys_raises:
  "getValue \<lparr>input_ch = 8, op_type = CONVOLUTION, vpu_device = VPU_2_0\<rparr> fp_comp
     = Inl out_of_range
   \<and> (\<forall>T. lut_entries (vpu_device lut) (op_type lut) = Some T
          \<and> (\<forall>k \<in> fst ` set T. \<not> key_le k (log2f (input_ch lut)))
        \<longrightarrow> fst (neighbours (log2f (input_ch lut)) T 0 max_ch_log2) = 0
          \<and> 0 \<notin> fst ` set T
          \<and> getValue lut fp_comp = Inl out_of_range)
   \<and> (\<forall>T x. lut_entries (vpu_device lut) (op_type lut) = Some T
          \<and> log2f (input_ch lut) = Finite x \<and> (\<forall>k \<in> fst ` set T. real k < x)
        \<longrightarrow> snd (neighbours (log2f (input_ch lut)) T 0 max_ch_log2) = 13
          \<and> 13 \<notin> fst ` set T
          \<and> getValue lut fp_comp = Inl out_of_range)
   \<and> max_ch_log2 = 13"
proof (intro conjI allI impI)
  let ?lut = "\<lparr>input_ch = 8, op_type = CONVOLUTION, vpu_device = VPU_2_0\<rparr>"
  let ?T = "[(4, 0.87), (5, 0.92), (6, 1.0), (7, 0.95), (8, 0.86), (9, 0.87)] :: pf_map"
  have e: "lut_entries (vpu_device ?lut) (op_type ?lut) = Some ?T"
    by (simp add: lut_entries_2_0_conv)
  have l: "log2f 8 = Finite 3"
    using log2f_power [of 3] by simp
  have "getValueInterpolation ?lut ?T = Inl out_of_range"
    by (rule interpolation_below [THEN conjunct2]) (simp_all add: l)
  then show "getValue ?lut fp_comp = Inl out_of_range"
    by (simp add: getValue_entries [OF e])
next
  fix T
  assume a: "lut_entries (vpu_device lut) (op_type lut) = Some T
          \<and> (\<forall>k \<in> fst ` set T. \<not> key_le k (log2f (input_ch lut)))"
  note wf = lut_entries_wf [OF a [THEN conjunct1]]
  have b: "neighbours (log2f (input_ch lut)) T 0 max_ch_log2 = (0, fst (hd T))
       \<and> getValueInterpolation lut T = Inl out_of_range"
    by (rule interpolation_below) (use a wf in auto)
  show "fst (neighbours (log2f (input_ch lut)) T 0 max_ch_log2) = 0"
    using b by simp
  show "0 \<notin> fst ` set T" using wf by auto
  show "getValue lut fp_comp = Inl out_of_range"
    using b by (simp add: getValue_entries [OF a [THEN conjunct1]])
next
  fix T x
  assume a: "lut_entries (vpu_device lut) (op_type lut) = Some T
          \<and> log2f (input_ch lut) = Finite x \<and> (\<forall>k \<in> fst ` set T. real k < x)"
  note wf = lut_entries_wf [OF a [THEN conjunct1]]
  have b: "neighbours (log2f (input_ch lut)) T 0 max_ch_log2
            = (Max (insert 0 (fst ` set T)), 13)
       \<and> getValueInterpolation lut T = Inl out_of_range"
    by (rule interpolation_above) (use a wf in auto)
  show "snd (neighbours (log2f (input_ch lut)) T 0 max_ch_log2) = 13"
    using b by simp
  show "13 \<notin> fst ` set T" using wf by auto
  show "getValue lut fp_comp = Inl out_of_range"
    using b by (simp add: getValue_entries [OF a [THEN conjunct1]])
next
  show "max_ch_log2 = 13" by (rule max_ch_log2_eq)
qed


theorem lookup_outside_keys_raises_witness:
  "fst (neighbours (log2f 8)
          [(4, 0.87), (5, 0.92), (6, 1.0), (7, 0.95), (8, 0.86), (9, 0.87)] 0 max_ch_log2) = 0
   \<and> getValue \<lparr>input_ch = 8, op_type = CONVOLUTION, vpu_device = VPU_2_0\<rparr> True
       = Inl out_of_range
   \<and> snd (neighbours (log2f 1024)
          [(4, 0.87), (5, 0.92), (6, 1.0), (7, 0.95), (8, 0.86), (9, 0.87)] 0 max_ch_log2) = 13
   \<and> getValue \<lparr>input_ch = 1024, op_type = CONVOLUTION, vpu_device = VPU_2_0\<rparr> False
       = Inl out_of_range"
proof -
  let ?A = "\<lparr>input_ch = 8, op_type = CONVOLUTION, vpu_device = VPU_2_0\<rparr>"
  let ?B = "\<lparr>input_ch = 1024, op_type = CONVOLUTION, vpu_device = VPU_2_0\<rparr>"
  let ?T20 = "[(4, 0.87), (5, 0.92), (6, 1.0), (7, 0.95), (8, 0.86), (9, 0.87)] :: pf_map"
  have l8: "log2f 8 = Finite 3" using log2f_power [of 3] by simp
  have l1024: "log2f 1024 = Finite 10" using log2f_power [of 10] by simp
  have hypA: "lut_entries (vpu_device ?A) (op_type ?A) = Some ?T20
      \<and> (\<forall>k \<in> fst ` set ?T20. \<not> key_le k (log2f (input_ch ?A)))"
    by (simp add: lut_entries_2_0_conv l8)
  have hypB: "lut_entries (vpu_device ?B) (op_type ?B) = Some ?T20
      \<and> log2f (input_ch ?B) = Finite 10 \<and> (\<forall>k \<in> fst ` set ?T20. real k < 10)"
    by (simp add: lut_entries_2_0_conv l1024)
  note A = lookup_outside_keys_raises [of True ?A, THEN conjunct2, THEN conjunct1,
      rule_format, OF hypA]
  note B = lookup_outside_keys_raises [of False ?B, THEN conjunct2, THEN conjunct2,
      THEN conjunct1, rule_format, OF hypB]
  show ?thesis using A B by simp
qed

section \<open>Properties of the element-wise SHAVE kernels\<close>

subsection \<open>Float32 conversion, division and rounding\<close>

lemma bit_length_bounds:
  "0 < n \<Longrightarrow> 2 ^ (bit_length n - 1) \<le> n \<and> n < 2 ^ bit_length n"
proof (induction n rule: bit_length.induct)
  case (1 n)
  show ?case
  proof (cases "n div 2 = 0")
    case True
    then have "n = 1" using "1.prems" by auto
    then show ?thesis by (simp add: bit_length.simps)
  next
    case False
    then have ih: "2 ^ (bit_length (n div 2) - 1) \<le> n div 2" "n div 2 < 2 ^ bit_length (n div 2)"
      using "1.IH" "1.prems" by auto
    have k: "bit_length n = Suc (bit_length (n div 2))"
      using "1.prems" by (subst bit_length.simps) simp
    have pos: "0 < bit_length (n div 2)"
      using False by (subst bit_length.simps) simp
    then have p: "(2::nat) ^ bit_length (n div 2) = 2 * 2 ^ (bit_length (n div 2) - 1)"
      by (cases "bit_length (n div 2)") simp_all
    have lo: "2 ^ bit_length (n div 2) \<le> n"
      unfolding p using ih(1) by linarith
    have hi: "n < 2 * 2 ^ bit_length (n div 2)"
      using ih(2) by linarith
    show ?thesis unfolding k using lo hi by simp
  qed
qed

lemma round_nearest_even_cases:
  "round_nearest_even N D = N div D \<and> 2 * (N mod D) \<le> D
   \<or> round_nearest_even N D = N div D + 1 \<and> D \<le> 2 * (N mod D)"
  by (auto simp: round_nearest_even_def Let_def)

lemma round_nearest_even_error:
  assumes "0 < D"
  shows "\<bar>real (round_nearest_even N D) - real N / real D\<bar> \<le> 1 / 2"
proof -
  have N: "real N = real (N div D) * real D + real (N mod D)"
    by (metis div_mult_mod_eq of_nat_add of_nat_mult)
  have D: "0 < real D" using assms by simp
  have frac: "real N / real D = real (N div D) + real (N mod D) / real D"
    using D by (simp add: N add_divide_distrib)
  have r: "real (N mod D) < real D" using assms by simp
  from round_nearest_even_cases [of N D] show ?thesis
  proof
    assume a: "round_nearest_even N D = N div D \<and> 2 * (N mod D) \<le> D"
    then have "2 * real (N mod D) \<le> real D" by (metis of_nat_le_iff of_nat_mult of_nat_numeral)
    then have "real (N mod D) / real D \<le> 1 / 2" using D by (simp add: field_simps)
    then show ?thesis using a frac by simp
  next
    assume a: "round_nearest_even N D = N div D + 1 \<and> D \<le> 2 * (N mod D)"
    then have "real D \<le> 2 * real (N mod D)" by (metis of_nat_le_iff of_nat_mult of_nat_numeral)
    then have "1 / 2 \<le> real (N mod D) / real D" using D by (simp add: field_simps)
    moreover have "real (N mod D) / real D < 1" using r D by simp
    ultimately show ?thesis using a frac by simp
  qed
qed

lemma round_nearest_even_range:
  assumes "lo * D \<le> N" "N < hi * D"
  shows "lo \<le> round_nearest_even N D \<and> round_nearest_even N D \<le> hi"
proof -
  have D: "0 < D" using assms(2) by (cases D) auto
  have "lo \<le> N div D" using assms(1) D by (simp add: less_eq_div_iff_mult_less_eq)
  moreover have "N div D < hi" using assms(2) D by (simp add: div_less_iff_less_mult)
  ultimately show ?thesis using round_nearest_even_cases [of N D] by auto
qed


lemma pow2_split: "a + b = c \<Longrightarrow> (2::nat) ^ a * 2 ^ b = 2 ^ c"
  by (auto simp: power_add)

lemma f32_normalize_normal:
  "2 ^ 23 \<le> m \<Longrightarrow> m \<le> 2 ^ 24 \<Longrightarrow> f32_normal (f32_normalize (m, e))"
  by (simp add: f32_normal_def f32_normalize_def)

lemma f32_val_normalize [simp]: "f32_val (f32_normalize f) = f32_val f"
proof (cases "fst f = 2 ^ 24")
  case True
  have "(2::real) powi (snd f + 1) = 2 powi snd f * 2"
    by (simp add: power_int_add)
  then show ?thesis using True by (simp add: f32_normalize_def f32_val_def)
next
  case False
  then show ?thesis by (simp add: f32_normalize_def)
qed

lemma f32_of_nat_normal:
  assumes "0 < n"
  shows "f32_normal (f32_of_nat n)"
proof -
  let ?k = "bit_length n"
  have b: "2 ^ (?k - 1) \<le> n" "n < 2 ^ ?k"
    using bit_length_bounds [OF assms] by auto
  have kpos: "0 < ?k" using b(2) assms by (cases ?k) auto
  show ?thesis
  proof (cases "?k \<le> 24")
    case True
    have e1: "(2::nat) ^ (?k - 1) * 2 ^ (24 - ?k) = 2 ^ 23"
      by (rule pow2_split) (use True kpos in linarith)
    have e2: "(2::nat) ^ ?k * 2 ^ (24 - ?k) = 2 ^ 24"
      by (rule pow2_split) (use True in linarith)
    have "2 ^ (?k - 1) * 2 ^ (24 - ?k) \<le> n * 2 ^ (24 - ?k)"
      using b(1) by (rule mult_le_mono1)
    moreover have "n * 2 ^ (24 - ?k) < 2 ^ ?k * 2 ^ (24 - ?k)"
      using b(2) by simp
    ultimately have "2 ^ 23 \<le> n * 2 ^ (24 - ?k)" "n * 2 ^ (24 - ?k) < 2 ^ 24"
      unfolding e1 e2 by auto
    then show ?thesis
      using assms True by (simp add: f32_of_nat_def Let_def f32_normal_def)
  next
    case False
    have e1: "(2::nat) ^ 23 * 2 ^ (?k - 24) = 2 ^ (?k - 1)"
      by (rule pow2_split) (use False in linarith)
    have e2: "(2::nat) ^ 24 * 2 ^ (?k - 24) = 2 ^ ?k"
      by (rule pow2_split) (use False in linarith)
    have "2 ^ 23 \<le> round_nearest_even n (2 ^ (?k - 24))
        \<and> round_nearest_even n (2 ^ (?k - 24)) \<le> 2 ^ 24"
      by (rule round_nearest_even_range) (use b e1 e2 in auto)
    then have "f32_normal (f32_normalize (round_nearest_even n (2 ^ (?k - 24)), int ?k - 24))"
      by (simp add: f32_normalize_normal)
    then show ?thesis
      using assms False by (simp add: f32_of_nat_def Let_def)
  qed
qed

lemma f32_div_normal:
  assumes "f32_normal a" "f32_normal b"
  shows "f32_normal (f32_div a b)"
proof -
  have a: "2 ^ 23 \<le> fst a" "fst a < 2 ^ 24" and b: "2 ^ 23 \<le> fst b" "fst b < 2 ^ 24"
    using assms by (auto simp: f32_normal_def)
  have a0: "fst a \<noteq> 0" using a(1) by auto
  have two: "(2::nat) ^ 24 = 2 * 2 ^ 23" by simp
  show ?thesis
  proof (cases "fst b \<le> fst a")
    case True
    have "2 ^ 23 \<le> round_nearest_even (fst a * 2 ^ 23) (fst b)
        \<and> round_nearest_even (fst a * 2 ^ 23) (fst b) \<le> 2 ^ 24"
    proof (rule round_nearest_even_range)
      show "2 ^ 23 * fst b \<le> fst a * 2 ^ 23" using True by simp
      have "fst a < 2 * fst b" using a(2) b(1) unfolding two by linarith
      then have "fst a * 2 ^ 23 < (2 * fst b) * 2 ^ 23" by simp
      then show "fst a * 2 ^ 23 < 2 ^ 24 * fst b" unfolding two by (simp add: mult.commute)
    qed
    then show ?thesis
      using True a0 by (simp add: f32_div_def f32_normalize_normal)
  next
    case False
    have "2 ^ 23 \<le> round_nearest_even (fst a * 2 ^ 24) (fst b)
        \<and> round_nearest_even (fst a * 2 ^ 24) (fst b) \<le> 2 ^ 24"
    proof (rule round_nearest_even_range)
      have "fst b \<le> 2 * fst a" using a(1) b(2) unfolding two by linarith
      then have "2 ^ 23 * fst b \<le> 2 ^ 23 * (2 * fst a)" by simp
      then show "2 ^ 23 * fst b \<le> fst a * 2 ^ 24" unfolding two by (simp add: mult.commute)
      show "fst a * 2 ^ 24 < 2 ^ 24 * fst b" using False by simp
    qed
    then show ?thesis
      using False a0 by (simp add: f32_div_def f32_normalize_normal)
  qed
qed


lemma f32_val_pos: "f32_normal f \<Longrightarrow> 0 < f32_val f"
  by (simp add: f32_normal_def f32_val_def)

lemma powi_diff_neg:
  assumes "k \<le> m"
  shows "(2::real) powi (int k - int m) = inverse (2 ^ (m - k))"
proof -
  have h: "int k - int m = - int (m - k)" using assms by linarith
  show ?thesis unfolding h power_int_minus power_int_of_nat ..
qed

lemma powi_diff_pos:
  assumes "m \<le> k"
  shows "(2::real) powi (int k - int m) = 2 ^ (k - m)"
proof -
  have h: "int k - int m = int (k - m)" using assms by linarith
  show ?thesis unfolding h power_int_of_nat ..
qed

lemma scaled_error:
  fixes r x u :: real
  assumes "\<bar>r - x\<bar> \<le> 1 / 2" "0 < u"
  shows "\<bar>r * u - x * u\<bar> \<le> u / 2"
proof -
  have "\<bar>r * u - x * u\<bar> = \<bar>r - x\<bar> * u"
    using assms(2) by (simp add: abs_mult flip: left_diff_distrib)
  also have "\<dots> \<le> 1 / 2 * u"
    using assms by (intro mult_right_mono) simp_all
  finally show ?thesis by simp
qed

lemma int_24: "int 24 = 24"
  by simp

lemma f32_of_nat_exact:
  assumes "n < 2 ^ 24"
  shows "f32_val (f32_of_nat n) = real n"
proof (cases "n = 0")
  case True
  then show ?thesis by (simp add: f32_of_nat_def f32_val_def)
next
  case False
  let ?k = "bit_length n"
  have b: "2 ^ (?k - 1) \<le> n" using bit_length_bounds [of n] False by simp
  have k: "?k \<le> 24"
  proof (rule ccontr)
    assume "\<not> ?k \<le> 24"
    then have "24 \<le> ?k - 1" by simp
    then have "(2::nat) ^ 24 \<le> 2 ^ (?k - 1)" by (rule power_increasing) simp
    then show False using b assms by linarith
  qed
  have f: "f32_of_nat n = (n * 2 ^ (24 - ?k), int ?k - int 24)"
    unfolding int_24 using False k by (simp add: f32_of_nat_def Let_def)
  have "f32_val (f32_of_nat n) = real n * 2 ^ (24 - ?k) * inverse (2 ^ (24 - ?k))"
    unfolding f f32_val_def fst_conv snd_conv powi_diff_neg [OF k] by simp
  then show ?thesis by simp
qed

lemma f32_of_nat_error:
  "\<bar>f32_val (f32_of_nat n) - real n\<bar> \<le> real n / 2 ^ 24"
proof (cases "n < 2 ^ 24")
  case True
  then show ?thesis by (simp add: f32_of_nat_exact)
next
  case False
  then have n0: "0 < n" by (cases n) auto
  let ?k = "bit_length n"
  have b: "2 ^ (?k - 1) \<le> n" "n < 2 ^ ?k" using bit_length_bounds [OF n0] by auto
  have k: "24 < ?k"
  proof (rule ccontr)
    assume "\<not> 24 < ?k"
    then have "(2::nat) ^ ?k \<le> 2 ^ 24" by (intro power_increasing) simp_all
    then show False using b(2) False by linarith
  qed
  let ?D = "(2::nat) ^ (?k - 24)"
  let ?r = "round_nearest_even n ?D"
  have f: "f32_of_nat n = f32_normalize (?r, int ?k - int 24)"
    unfolding int_24 using n0 k by (simp add: f32_of_nat_def Let_def)
  have k': "24 \<le> ?k" using k by simp
  have v: "f32_val (f32_of_nat n) = real ?r * real ?D"
    unfolding f f32_val_normalize
    unfolding f32_val_def fst_conv snd_conv powi_diff_pos [OF k'] by simp
  have D: "0 < real ?D" by simp
  have "\<bar>real ?r - real n / real ?D\<bar> \<le> 1 / 2"
    by (rule round_nearest_even_error) simp
  from scaled_error [OF this D]
  have e: "\<bar>real ?r * real ?D - real n\<bar> \<le> real ?D / 2" by simp
  have "2 ^ 23 * ?D = 2 ^ (?k - 1)"
    by (rule pow2_split) (use k in linarith)
  then have "2 ^ 23 * ?D \<le> n" using b(1) by simp
  then have "real (2 ^ 23 * ?D) \<le> real n" by (rule of_nat_mono)
  then have h: "2 ^ 23 * real ?D \<le> real n" by simp
  have "real ?D / 2 = (2 ^ 23 * real ?D) / 2 ^ 24" by simp
  also have "\<dots> \<le> real n / 2 ^ 24" using h by (rule divide_right_mono) simp
  finally show ?thesis using e v by linarith
qed


lemma rounded_quotient_error:
  fixes u :: real
  assumes "0 < D" "2 ^ 23 * D \<le> N" "0 < u"
  shows "\<bar>real (round_nearest_even N D) * u - real N / real D * u\<bar>
         \<le> (real N / real D * u) / 2 ^ 24"
proof -
  have "\<bar>real (round_nearest_even N D) - real N / real D\<bar> \<le> 1 / 2"
    by (rule round_nearest_even_error [OF assms(1)])
  from scaled_error [OF this assms(3)]
  have e: "\<bar>real (round_nearest_even N D) * u - real N / real D * u\<bar> \<le> u / 2" .
  have "real (2 ^ 23 * D) \<le> real N" using assms(2) by (rule of_nat_mono)
  then have "2 ^ 23 * real D \<le> real N" by simp
  then have "2 ^ 23 \<le> real N / real D"
    using assms(1) by (simp add: le_divide_eq)
  then have "2 ^ 23 * u \<le> real N / real D * u"
    using assms(3) by (intro mult_right_mono) simp_all
  then have "(2 ^ 23 * u) / 2 ^ 24 \<le> (real N / real D * u) / 2 ^ 24"
    by (rule divide_right_mono) simp
  moreover have "u / 2 = (2 ^ 23 * u) / 2 ^ 24" by simp
  ultimately show ?thesis using e by linarith
qed

lemma f32_div_error:
  assumes "f32_normal a" "f32_normal b"
  shows "\<bar>f32_val (f32_div a b) - f32_val a / f32_val b\<bar> \<le> (f32_val a / f32_val b) / 2 ^ 24"
proof -
  have a: "2 ^ 23 \<le> fst a" "fst a < 2 ^ 24" and b: "2 ^ 23 \<le> fst b" "fst b < 2 ^ 24"
    using assms by (auto simp: f32_normal_def)
  have a0: "fst a \<noteq> 0" and b0: "0 < fst b" using a(1) b(1) by auto
  have two: "(2::nat) ^ 24 = 2 * 2 ^ 23" by simp
  have pa: "0 < (2::real) powi snd a" and pb: "0 < (2::real) powi snd b" by simp_all
  show ?thesis
  proof (cases "fst b \<le> fst a")
    case True
    let ?u = "(2::real) powi (snd a - snd b - 23)"
    have d: "f32_div a b
        = f32_normalize (round_nearest_even (fst a * 2 ^ 23) (fst b), snd a - snd b - 23)"
      using True a0 by (simp add: f32_div_def)
    have u: "?u = 2 powi snd a / 2 powi snd b / 2 ^ 23"
      by (simp add: power_int_diff)
    have x: "real (fst a * 2 ^ 23) / real (fst b) * ?u = f32_val a / f32_val b"
      unfolding u f32_val_def using b0 by simp
    have "2 ^ 23 * fst b \<le> fst a * 2 ^ 23" using True by simp
    from rounded_quotient_error [OF b0 this, of ?u]
    show ?thesis unfolding d f32_val_normalize x [symmetric]
      by (simp add: f32_val_def)
  next
    case False
    let ?u = "(2::real) powi (snd a - snd b - 24)"
    have d: "f32_div a b
        = f32_normalize (round_nearest_even (fst a * 2 ^ 24) (fst b), snd a - snd b - 24)"
      using False a0 by (simp add: f32_div_def)
    have u: "?u = 2 powi snd a / 2 powi snd b / 2 ^ 24"
      by (simp add: power_int_diff)
    have x: "real (fst a * 2 ^ 24) / real (fst b) * ?u = f32_val a / f32_val b"
      unfolding u f32_val_def using b0 by simp
    have "fst b \<le> 2 * fst a" using a(1) b(2) unfolding two by linarith
    then have "2 ^ 23 * fst b \<le> 2 ^ 23 * (2 * fst a)" by simp
    then have "2 ^ 23 * fst b \<le> fst a * 2 ^ 24" unfolding two by (simp add: mult.commute)
    from rounded_quotient_error [OF b0 this, of ?u]
    show ?thesis unfolding d f32_val_normalize x [symmetric]
      by (simp add: f32_val_def)
  qed
qed

lemma c_round_eq_round: "c_round f = round (f32_val f)"
proof (cases "0 \<le> snd f")
  case True
  have "f32_val f = of_int (int (fst f) * 2 ^ nat (snd f))"
    using True by (simp add: f32_val_def power_int_def)
  then have "round (f32_val f) = int (fst f) * 2 ^ nat (snd f)"
    by (simp only: round_of_int)
  then show ?thesis using True by (simp add: c_round_def)
next
  case False
  let ?d = "(2::int) ^ nat (- snd f)"
  have v: "f32_val f = real (fst f) / of_int ?d"
    using False by (simp add: f32_val_def power_int_def field_simps)
  have "f32_val f + 1 / 2 = of_int (2 * int (fst f) + ?d) / of_int (2 * ?d)"
    unfolding v by (simp add: field_simps)
  then have "\<lfloor>f32_val f + 1 / 2\<rfloor> = (2 * int (fst f) + ?d) div (2 * ?d)"
    by (simp only: floor_divide_of_int_eq)
  then show ?thesis using False by (simp add: c_round_def round_def)
qed

subsection \<open>The cycles of a kernel\<close>

lemma unat_cycles_sum:
  fixes r :: int and l :: nat
  assumes "0 \<le> r" "nat r + l < 2 ^ 32"
  shows "unat (word_of_int r + of_nat l :: 32 word) = nat r + l"
proof -
  have "(word_of_int r :: 32 word) = of_nat (nat r)" using assms(1) by simp
  then have "(word_of_int r + of_nat l :: 32 word) = of_nat (nat r + l)" by simp
  moreover have "unat (of_nat (nat r + l) :: 32 word) = (nat r + l) mod 2 ^ LENGTH(32)"
    by (rule unat_of_nat)
  moreover have "(nat r + l) mod 2 ^ LENGTH(32) = nat r + l"
    by (rule mod_less) (use assms(2) in simp)
  ultimately show ?thesis by simp
qed

lemmas f32_eval =
  f32_of_nat_def f32_div_def f32_normalize_def round_nearest_even_def getKernelEfficiency_def
  c_round_def bit_length.simps Let_def

lemma f32_of_nat_1000: "f32_of_nat 1000 = (16384000, - 14)"
  by (simp add: f32_eval)

lemma f32_normal_1000: "f32_normal (f32_of_nat 1000)"
  by (rule f32_of_nat_normal) simp

lemma f32_val_1000: "f32_val (f32_of_nat 1000) = 1000"
  by (rule f32_of_nat_exact [of 1000, simplified])

lemma kernel_efficiency_normal:
  "0 < efficiency \<Longrightarrow> f32_normal (getKernelEfficiency efficiency)"
  unfolding getKernelEfficiency_def
  by (rule f32_div_normal [OF f32_of_nat_normal f32_normal_1000])

lemma f32_normal_nonzero: "f32_normal f \<Longrightarrow> fst f \<noteq> 0"
  by (auto simp: f32_normal_def)

lemma f32_div_zero: "f32_val (f32_div (0, e) b) = 0"
  by (simp add: f32_div_def f32_val_def)

text \<open>
  Claim C5, as the code has it. For a positive efficiency argument and a latency \<open>l\<close>,
  \<open>cycles()\<close> returns \<open>round(q) + l\<close> as a 32-bit unsigned sum (the sum itself whenever
  it fits in 32 bits), where \<open>round\<close> is to the nearest integer, halves up, and \<open>q\<close> is
  the float32 quotient of the output byte size by the kernel efficiency, provided
  \<open>round(q)\<close> is below \<open>2\<^sup>3\<^sup>2\<close>. The quotient is computed in single precision: the
  size and the efficiency argument are converted to float32, the efficiency is divided by
  1000 and the size by the result, and each of these steps is within a relative error of
  \<open>2\<^sup>-\<^sup>2\<^sup>4\<close> of the exact value.
\<close>

theorem shv_elementwise_cycles_round:
  assumes "0 < efficiency"
    and "round (f32_val (f32_div (f32_of_nat (tensor_size (sw_outputs_0 swo)))
                           (getKernelEfficiency efficiency))) < 2 ^ 32"
  shows "SHVElementwise_cycles efficiency latency swo
           = Some (word_of_int
                     (round (f32_val (f32_div (f32_of_nat (tensor_size (sw_outputs_0 swo)))
                                        (getKernelEfficiency efficiency))))
                   + of_nat latency)
       \<and> (nat (round (f32_val (f32_div (f32_of_nat (tensor_size (sw_outputs_0 swo)))
                                  (getKernelEfficiency efficiency))))
            + latency < 2 ^ 32 \<longrightarrow>
          map_option unat (SHVElementwise_cycles efficiency latency swo)
            = Some (nat (round (f32_val (f32_div (f32_of_nat (tensor_size (sw_outputs_0 swo)))
                                           (getKernelEfficiency efficiency))))
                    + latency))
       \<and> \<bar>f32_val (f32_of_nat (tensor_size (sw_outputs_0 swo)))
            - real (tensor_size (sw_outputs_0 swo))\<bar>
          \<le> real (tensor_size (sw_outputs_0 swo)) / 2 ^ 24
       \<and> \<bar>f32_val (f32_of_nat efficiency) - real efficiency\<bar> \<le> real efficiency / 2 ^ 24
       \<and> \<bar>f32_val (getKernelEfficiency efficiency) - f32_val (f32_of_nat efficiency) / 1000\<bar>
          \<le> (f32_val (f32_of_nat efficiency) / 1000) / 2 ^ 24
       \<and> \<bar>f32_val (f32_div (f32_of_nat (tensor_size (sw_outputs_0 swo)))
                      (getKernelEfficiency efficiency))
            - f32_val (f32_of_nat (tensor_size (sw_outputs_0 swo)))
              / f32_val (getKernelEfficiency efficiency)\<bar>
          \<le> (f32_val (f32_of_nat (tensor_size (sw_outputs_0 swo)))
              / f32_val (getKernelEfficiency efficiency)) / 2 ^ 24"
proof -
  let ?n = "tensor_size (sw_outputs_0 swo)"
  let ?e = "getKernelEfficiency efficiency"
  let ?q = "f32_div (f32_of_nat ?n) ?e"
  have en: "f32_normal ?e" by (rule kernel_efficiency_normal [OF assms(1)])
  have e0: "fst ?e \<noteq> 0" by (rule f32_normal_nonzero [OF en])
  have r: "c_round ?q = round (f32_val ?q)" by (rule c_round_eq_round)
  have r0: "0 \<le> round (f32_val ?q)"
    by (simp add: round_def f32_val_def)
  have val: "SHVElementwise_cycles efficiency latency swo
      = Some (word_of_int (round (f32_val ?q)) + of_nat latency)"
    using e0 assms(2) by (simp add: SHVElementwise_cycles_def Let_def r getLatency_def)
  have c1: "\<bar>f32_val (f32_of_nat ?n) - real ?n\<bar> \<le> real ?n / 2 ^ 24"
    by (rule f32_of_nat_error)
  have c2: "\<bar>f32_val (f32_of_nat efficiency) - real efficiency\<bar> \<le> real efficiency / 2 ^ 24"
    by (rule f32_of_nat_error)
  have "\<bar>f32_val (f32_div (f32_of_nat efficiency) (f32_of_nat 1000))
          - f32_val (f32_of_nat efficiency) / f32_val (f32_of_nat 1000)\<bar>
      \<le> (f32_val (f32_of_nat efficiency) / f32_val (f32_of_nat 1000)) / 2 ^ 24"
    by (rule f32_div_error [OF f32_of_nat_normal [OF assms(1)] f32_normal_1000])
  then have c3: "\<bar>f32_val ?e - f32_val (f32_of_nat efficiency) / 1000\<bar>
      \<le> (f32_val (f32_of_nat efficiency) / 1000) / 2 ^ 24"
    unfolding f32_val_1000 getKernelEfficiency_def .
  have c4: "\<bar>f32_val ?q - f32_val (f32_of_nat ?n) / f32_val ?e\<bar>
      \<le> (f32_val (f32_of_nat ?n) / f32_val ?e) / 2 ^ 24"
  proof (cases "?n = 0")
    case True
    have "f32_of_nat ?n = (0, 0)" using True by (simp add: f32_of_nat_def)
    then have "f32_val ?q = 0" "f32_val (f32_of_nat ?n) = 0"
      by (simp_all add: f32_div_zero) (simp add: f32_val_def)
    then show ?thesis by simp
  next
    case False
    then have "f32_normal (f32_of_nat ?n)" by (intro f32_of_nat_normal) simp
    then show ?thesis by (rule f32_div_error [OF _ en])
  qed
  have c0: "nat (round (f32_val ?q)) + latency < 2 ^ 32 \<longrightarrow>
      map_option unat (SHVElementwise_cycles efficiency latency swo)
        = Some (nat (round (f32_val ?q)) + latency)"
  proof
    assume h: "nat (round (f32_val ?q)) + latency < 2 ^ 32"
    show "map_option unat (SHVElementwise_cycles efficiency latency swo)
        = Some (nat (round (f32_val ?q)) + latency)"
      unfolding val option.map unat_cycles_sum [OF r0 h] ..
  qed
  show ?thesis
    by (intro conjI; fact)
qed


theorem shv_elementwise_cycles_round_witness:
  "(0::nat) < 16
   \<and> round (f32_val (f32_div (f32_of_nat (tensor_size (sw_outputs_0 (example_sw_operation 1))))
                         (getKernelEfficiency 16))) = 62
   \<and> SHVElementwise_cycles 16 0 (example_sw_operation 1) = Some 62
   \<and> map_option unat (SHVElementwise_cycles 16 0 (example_sw_operation 1)) = Some 62
   \<and> SHVElementwise_cycles 1000 0 (example_sw_operation 16777217) = Some 16777216"
proof -
  have s1: "tensor_size (sw_outputs_0 (example_sw_operation 1)) = 1"
    by (simp add: example_sw_operation_def tensor_size_def tensor_x_def tensor_y_def
          channels_def tensor_b_def)
  have s2: "tensor_size (sw_outputs_0 (example_sw_operation 16777217)) = 16777217"
    by (simp add: example_sw_operation_def tensor_size_def tensor_x_def tensor_y_def
          channels_def tensor_b_def)
  have "c_round (f32_div (f32_of_nat 1) (getKernelEfficiency 16)) = 62"
    by (simp add: f32_eval)
  then have r1: "round (f32_val (f32_div (f32_of_nat 1) (getKernelEfficiency 16))) = 62"
    by (simp only: c_round_eq_round)
  have "c_round (f32_div (f32_of_nat 16777217) (getKernelEfficiency 1000)) = 16777216"
    by (simp add: f32_eval)
  then have r2: "round (f32_val (f32_div (f32_of_nat 16777217) (getKernelEfficiency 1000)))
      = 16777216"
    by (simp only: c_round_eq_round)
  have a1: "(0::nat) < 16" and a2: "(0::nat) < 1000" by simp_all
  have b1: "round (f32_val (f32_div (f32_of_nat (tensor_size (sw_outputs_0 (example_sw_operation 1))))
                         (getKernelEfficiency 16))) < 2 ^ 32"
    unfolding s1 r1 by simp
  have b2: "round (f32_val (f32_div
        (f32_of_nat (tensor_size (sw_outputs_0 (example_sw_operation 16777217))))
        (getKernelEfficiency 1000))) < 2 ^ 32"
    unfolding s2 r2 by simp
  note t1 = shv_elementwise_cycles_round [OF a1 b1, of 0, unfolded s1 r1]
  note t2 = shv_elementwise_cycles_round [OF a2 b2, of 0, unfolded s2 r2]
  have c1: "SHVElementwise_cycles 16 0 (example_sw_operation 1) = Some 62"
    using t1 [THEN conjunct1] by simp
  have c2: "map_option unat (SHVElementwise_cycles 16 0 (example_sw_operation 1)) = Some 62"
    using t1 [THEN conjunct2, THEN conjunct1] by simp
  have c3: "SHVElementwise_cycles 1000 0 (example_sw_operation 16777217) = Some 16777216"
    using t2 [THEN conjunct1] by simp
  show ?thesis
    unfolding s1 r1 using c1 c2 c3 by simp
qed

text \<open>
  The claim as written rounds the quotient up. The code rounds it to the nearest integer:
  for 5 output bytes, 4 bytes per cycle and latency 10 it returns 11, where the ceiling
  gives 12 (every float32 step is exact at this input).
\<close>

theorem shv_elementwise_cycles_counterexample:
  "tensor_size (sw_outputs_0 (example_sw_operation 5)) = 5
   \<and> f32_val (getKernelEfficiency 4000) = 4
   \<and> SHVElementwise_cycles 4000 10 (example_sw_operation 5) = Some 11
   \<and> (word_of_int
         \<lceil>real (tensor_size (sw_outputs_0 (example_sw_operation 5)))
            / f32_val (getKernelEfficiency 4000)\<rceil>
       + getLatency 10 :: 32 word) = 12"
proof -
  have s: "tensor_size (sw_outputs_0 (example_sw_operation 5)) = 5"
    by (simp add: example_sw_operation_def tensor_size_def tensor_x_def tensor_y_def
          channels_def tensor_b_def)
  have k: "getKernelEfficiency 4000 = (8388608, - 21)"
    by (simp add: f32_eval)
  have e: "f32_val (getKernelEfficiency 4000) = 4"
    by (simp add: k f32_val_def)
  have q: "c_round (f32_div (f32_of_nat 5) (getKernelEfficiency 4000)) = 1"
    by (simp add: f32_eval)
  have c: "\<lceil>(5 / 4 :: real)\<rceil> = 2" by (simp add: ceiling_eq_iff)
  have "SHVElementwise_cycles 4000 10 (example_sw_operation 5) = Some 11"
    unfolding SHVElementwise_cycles_def Let_def s q by (simp add: k getLatency_def)
  then show ?thesis using s e c by (simp add: getLatency_def)
qed

section \<open>Properties of the batched path\<close>

text \<open>
  The batch loop returns for every positive batch size, having written the prediction of
  each descriptor at its own index; with batch size 0 and work to do it never returns.
\<close>

lemma run_NN_loop_zero_batch:
  assumes "run_NN_loop env vector n wl_idx st = Some st'"
  shows "\<not> (model_batch_size env = 0 \<and> wl_idx < n)"
proof (rule run_NN_loop.raw_induct
    [where P = "\<lambda>env vector n wl_idx st st'. \<not> (model_batch_size env = 0 \<and> wl_idx < n)",
      OF _ assms])
  fix f env vector n wl_idx and st st' :: cost_model_state
  assume ih: "\<And>env vector n wl_idx st st'. f env vector n wl_idx st = Some st' \<Longrightarrow>
      \<not> (model_batch_size env = 0 \<and> wl_idx < n)"
    and body: "(if wl_idx < n then
        f env vector n (wl_idx + model_batch_size env)
          (st\<lparr>workloads_results_buffer :=
                fill_batch (workloads_results_buffer st)
                  (map (predict env) (take (model_batch_size env) (drop wl_idx vector)))
                  wl_idx (batch_end_idx wl_idx (model_batch_size env) n),
              predict_calls := Suc (predict_calls st)\<rparr>)
      else Some st) = Some st'"
  show "\<not> (model_batch_size env = 0 \<and> wl_idx < n)"
  proof
    assume z: "model_batch_size env = 0 \<and> wl_idx < n"
    then have "f env vector n (wl_idx + model_batch_size env)
          (st\<lparr>workloads_results_buffer :=
                fill_batch (workloads_results_buffer st)
                  (map (predict env) (take (model_batch_size env) (drop wl_idx vector)))
                  wl_idx (batch_end_idx wl_idx (model_batch_size env) n),
              predict_calls := Suc (predict_calls st)\<rparr>) = Some st'"
      using body by simp
    from ih [OF this] z show False by simp
  qed
qed

lemma length_fill_batch [simp]: "length (fill_batch buf out a b) = length buf"
proof -
  have "length (foldl (\<lambda>b idx. b[idx := out ! (idx - a)]) buf xs) = length buf" for xs
    by (induction xs arbitrary: buf) simp_all
  then show ?thesis by (simp add: fill_batch_def)
qed

lemma nth_update_outside: "\<not> i < length buf \<Longrightarrow> buf[j := v] ! i = buf ! i"
  by (cases "j = i") (simp_all add: list_update_beyond)

lemma nth_fill_batch:
  "fill_batch buf out a b ! i =
     (if a \<le> i \<and> i < b \<and> i < length buf then out ! (i - a) else buf ! i)"
proof -
  have "foldl (\<lambda>b idx. b[idx := out ! (idx - a)]) buf xs ! i =
      (if i \<in> set xs \<and> i < length buf then out ! (i - a) else buf ! i)" for xs
    by (induction xs arbitrary: buf) (auto simp: nth_list_update nth_update_outside)
  then show ?thesis by (simp add: fill_batch_def)
qed

lemma length_resize [simp]: "length (resize buf n) = n"
  by (simp add: resize_def)

lemma transform_batch_props:
  "length workloads \<le> length (transform_batch env workloads bs)"
  "i < length workloads \<Longrightarrow> transform_batch env workloads bs ! i = transform env (workloads ! i)"
  by (simp_all add: transform_batch_def nth_append)

lemma batch_end_idx_eq: "batch_end_idx a bs n = min (a + bs) n"
  by (simp add: batch_end_idx_def Let_def min_def)

lemma run_NN_loop_total:
  assumes bs: "0 < model_batch_size env" and len: "n \<le> length vector"
  shows "length (workloads_results_buffer st) = n \<Longrightarrow>
     \<exists>st'. run_NN_loop env vector n wl_idx st = Some st'
        \<and> length (workloads_results_buffer st') = n
        \<and> cache st' = cache st
        \<and> (\<forall>i < n. workloads_results_buffer st' ! i =
              (if wl_idx \<le> i then predict env (vector ! i)
               else workloads_results_buffer st ! i))"
proof (induction "n - wl_idx" arbitrary: wl_idx st rule: less_induct)
  case less
  show ?case
  proof (cases "wl_idx < n")
    case False
    then have "run_NN_loop env vector n wl_idx st = Some st"
      by (subst run_NN_loop.simps) simp
    then show ?thesis using False less.prems by auto
  next
    case True
    let ?bs = "model_batch_size env"
    let ?out = "map (predict env) (take ?bs (drop wl_idx vector))"
    let ?st1 = "st\<lparr>workloads_results_buffer :=
                    fill_batch (workloads_results_buffer st) ?out wl_idx
                      (batch_end_idx wl_idx ?bs n),
                  predict_calls := Suc (predict_calls st)\<rparr>"
    have unfold: "run_NN_loop env vector n wl_idx st
        = run_NN_loop env vector n (wl_idx + ?bs) ?st1"
      using True by (subst run_NN_loop.simps) simp
    have dec: "n - (wl_idx + ?bs) < n - wl_idx" using True bs by simp
    have len1: "length (workloads_results_buffer ?st1) = n" using less.prems by simp
    obtain st' where st': "run_NN_loop env vector n (wl_idx + ?bs) ?st1 = Some st'"
      "length (workloads_results_buffer st') = n" "cache st' = cache ?st1"
      "\<forall>i < n. workloads_results_buffer st' ! i =
              (if wl_idx + ?bs \<le> i then predict env (vector ! i)
               else workloads_results_buffer ?st1 ! i)"
      using less.hyps [OF dec len1] by blast
    have vals: "workloads_results_buffer st' ! i =
              (if wl_idx \<le> i then predict env (vector ! i)
               else workloads_results_buffer st ! i)" if i: "i < n" for i
    proof (cases "wl_idx + ?bs \<le> i")
      case True
      then show ?thesis using st'(4) i by simp
    next
      case far: False
      show ?thesis
      proof (cases "wl_idx \<le> i")
        case False
        then show ?thesis using st'(4) i far by (simp add: nth_fill_batch)
      next
        case near: True
        have "i - wl_idx < ?bs" using far near by simp
        moreover have "i < length vector" using i len by simp
        ultimately have "?out ! (i - wl_idx) = predict env (vector ! i)"
          using near by simp
        then show ?thesis
          using st'(4) i far near less.prems
          by (simp add: nth_fill_batch batch_end_idx_eq)
      qed
    qed
    show ?thesis
      unfolding unfold using st'(1,2,3) vals by simp
  qed
qed


lemma run_NN_batch_total:
  assumes bs: "nn_initialized env \<longrightarrow> 0 < model_batch_size env"
  shows "\<exists>results st'. run_NN_batch env st workloads = Some (results, st')
        \<and> length results = length workloads
        \<and> cache st' = cache st
        \<and> (nn_initialized env \<longrightarrow>
             (\<forall>i < length workloads. results ! i = predict env (transform env (workloads ! i))))"
proof (cases "nn_initialized env")
  case False
  then show ?thesis by (simp add: run_NN_batch_def Let_def)
next
  case True
  let ?st1 = "st\<lparr>workloads_results_buffer :=
                  resize (workloads_results_buffer st) (length workloads)\<rparr>"
  let ?vec = "transform_batch env workloads (model_batch_size env)"
  have pos: "0 < model_batch_size env" using bs True by simp
  have len: "length (workloads_results_buffer ?st1) = length workloads" by simp
  obtain st' where st': "run_NN_loop env ?vec (length workloads) 0 ?st1 = Some st'"
    "length (workloads_results_buffer st') = length workloads" "cache st' = cache ?st1"
    "\<forall>i < length workloads. workloads_results_buffer st' ! i =
        (if 0 \<le> i then predict env (?vec ! i) else workloads_results_buffer ?st1 ! i)"
    using run_NN_loop_total [where env = env and vector = ?vec and n = "length workloads"
        and wl_idx = 0 and st = ?st1, OF pos transform_batch_props(1) len]
    by blast
  have "run_NN_batch env st workloads = Some (workloads_results_buffer st', st')"
    using True st'(1) by (simp add: run_NN_batch_def Let_def)
  then show ?thesis
    using st'(2,3,4) by (simp add: transform_batch_props(2))
qed

lemma run_NN_coherent:
  assumes "\<forall>e \<in> set (entries (cache st)). snd e = predict env (fst e)"
  shows "fst (run_NN env st workload) = predict env (transform env workload)"
proof (cases "cache_get (cache st) (transform env workload)")
  case None
  then show ?thesis by (simp add: run_NN_def Let_def)
next
  case (Some y)
  then have "(transform env workload, y) \<in> set (entries (cache st))"
    by (simp add: cache_get_def map_of_SomeD)
  then have "y = predict env (transform env workload)" using assms by force
  then show ?thesis using Some by (simp add: run_NN_def Let_def)
qed

lemma run_NN_keeps_coherent:
  assumes "\<forall>e \<in> set (entries (cache st)). snd e = predict env (fst e)"
  shows "\<forall>e \<in> set (entries (cache (snd (run_NN env st workload)))). snd e = predict env (fst e)"
proof (cases "cache_get (cache st) (transform env workload)")
  case None
  have "set (entries (cache_add (cache st) k v)) \<subseteq> insert (k, v) (set (entries (cache st)))"
    for k v
    by (auto simp: cache_add_def dest!: in_set_takeD)
  then show ?thesis using None assms by (fastforce simp: run_NN_def Let_def)
next
  case (Some y)
  then show ?thesis using assms by (simp add: run_NN_def Let_def)
qed

lemma DPU_single_value:
  assumes "\<forall>e \<in> set (entries (cache st)). snd e = predict env (fst e)"
    and "sanitize_workload env wl default_SanityReport = (relevant, wl', problems)"
  shows "fst (DPU env st wl) =
     (if relevant then
        (if nn_initialized env then
           (if is_NN_value_invalid (predict env (transform env wl'))
            then ERROR_INVALID_OUTPUT_RANGE
            else word_of_int \<lceil>predict env (transform env wl')\<rceil>)
         else of_nat (DPUTheoreticalCycles env wl'))
      else report_value problems)"
  using run_NN_coherent [OF assms(1), of wl']
  by (auto simp: DPU_def DPU_and_sanitize_def Let_def assms(2) split: prod.splits)

lemma DPU_batch_unfold:
  assumes "run_NN_batch env st
             (map (\<lambda>wl. fst (snd (sanitize_workload env wl default_SanityReport))) workloads)
           = Some (results, st')"
  shows "DPU_batch env st workloads =
     Some (map (\<lambda>idx.
             (if fst (sanitize_workload env (workloads ! idx) default_SanityReport) then
                (if nn_initialized env then
                   (if is_NN_value_invalid (results ! idx) then ERROR_INVALID_OUTPUT_RANGE
                    else word_of_int \<lceil>results ! idx\<rceil>)
                 else of_nat (DPUTheoreticalCycles env
                        (fst (snd (sanitize_workload env (workloads ! idx) default_SanityReport)))))
              else report_value
                     (snd (snd (sanitize_workload env (workloads ! idx) default_SanityReport)))))
           [0..<length workloads], st')"
proof -
  have w: "map (\<lambda>(relevance, wl', problems). wl')
             (map (\<lambda>wl. sanitize_workload env wl default_SanityReport) workloads)
         = map (\<lambda>wl. fst (snd (sanitize_workload env wl default_SanityReport))) workloads"
    by (simp add: case_prod_unfold)
  show ?thesis
    unfolding DPU_batch_def Let_def w assms option.case prod.case
    by (simp cong: map_cong)
qed

text \<open>
  Claim C2. The predictor is a function of the descriptor, and the preprocessing a total
  function of the workload. Whenever the batch loop can advance (the predictor is not
  initialized, or the model's batch size is positive), the batched \<open>DPU\<close> returns, with
  one result per workload and in input order: the result at index \<open>i\<close> is the result of
  the single-workload \<open>DPU\<close> on workload \<open>i\<close>, run in any state whose cache holds
  only values of the predictor (as every cache filled by \<open>run_NN\<close> does).
\<close>

theorem batched_agrees_with_single:
  assumes bs: "nn_initialized env \<longrightarrow> 0 < model_batch_size env"
    and coh: "\<forall>e \<in> set (entries (cache st1)). snd e = predict env (fst e)"
  shows "\<exists>cycles st'. DPU_batch env st workloads = Some (cycles, st')
        \<and> length cycles = length workloads
        \<and> (\<forall>i < length workloads. cycles ! i = fst (DPU env st1 (workloads ! i)))"
proof -
  let ?wls = "map (\<lambda>wl. fst (snd (sanitize_workload env wl default_SanityReport))) workloads"
  obtain results st' where r: "run_NN_batch env st ?wls = Some (results, st')"
    "nn_initialized env \<longrightarrow>
       (\<forall>i < length ?wls. results ! i = predict env (transform env (?wls ! i)))"
    using run_NN_batch_total [OF bs, of st ?wls] by blast
  note batch = DPU_batch_unfold [OF r(1)]
  have "fst (the (DPU_batch env st workloads)) ! i = fst (DPU env st1 (workloads ! i))"
    if i: "i < length workloads" for i
  proof -
    obtain relevant wl' problems where
      s: "sanitize_workload env (workloads ! i) default_SanityReport = (relevant, wl', problems)"
      by (cases "sanitize_workload env (workloads ! i) default_SanityReport")
    have res: "nn_initialized env \<Longrightarrow> results ! i = predict env (transform env wl')"
      using r(2) i s by simp
    show ?thesis
      using i res by (simp add: batch s DPU_single_value [OF coh s])
  qed
  then show ?thesis by (simp add: batch)
qed


theorem batched_agrees_with_single_witness:
  "map_option fst
     (DPU_batch (example_env True 2 (\<lambda>d. sum_list d / 2)) example_state
        [example_workload VPU_2_0 CONVOLUTION 16 16,
         example_workload VPU_2_7 OP_Invalid 16 16,
         example_workload VPU_2_7 CONVOLUTION 3 8])
   = Some [16, ERROR_INVALID_INPUT_OPERATION, 6]"
proof -
  let ?E = "example_env True 2 (\<lambda>d. sum_list d / 2)"
  let ?ws = "[example_workload VPU_2_0 CONVOLUTION 16 16,
         example_workload VPU_2_7 OP_Invalid 16 16,
         example_workload VPU_2_7 CONVOLUTION 3 8]"
  have bs: "nn_initialized ?E \<longrightarrow> 0 < model_batch_size ?E"
    by (simp add: example_env_def)
  have coh: "\<forall>e \<in> set (entries (cache example_state)). snd e = predict ?E (fst e)"
    by (simp add: example_state_def)
  obtain cycles st' where b: "DPU_batch ?E example_state ?ws = Some (cycles, st')"
    "length cycles = length ?ws"
    "\<forall>i < length ?ws. cycles ! i = fst (DPU ?E example_state (?ws ! i))"
    using batched_agrees_with_single [OF bs coh, of example_state ?ws] by blast
  have c: "\<lceil>11 / 2 :: real\<rceil> = 6" by (simp add: ceiling_eq_iff)
  have d0: "fst (DPU ?E example_state (example_workload VPU_2_0 CONVOLUTION 16 16)) = 16"
    by (simp add: DPU_def DPU_and_sanitize_def example_defs is_NN_value_invalid_def
          high_threshold_def low_threshold_def)
  have d1: "fst (DPU ?E example_state (example_workload VPU_2_7 OP_Invalid 16 16))
      = ERROR_INVALID_INPUT_OPERATION"
    by (simp add: DPU_def DPU_and_sanitize_def example_defs ERROR_INVALID_INPUT_OPERATION_def)
  have d2: "fst (DPU ?E example_state (example_workload VPU_2_7 CONVOLUTION 3 8)) = 6"
    by (simp add: DPU_def DPU_and_sanitize_def example_defs is_NN_value_invalid_def
          high_threshold_def low_threshold_def c)
  have n0: "cycles ! 0 = 16" using b(3) d0 by simp
  have n1: "cycles ! 1 = ERROR_INVALID_INPUT_OPERATION" using b(3) d1 by simp
  have n2: "cycles ! 2 = 6" using b(3) d2 by simp
  have "cycles = [16, ERROR_INVALID_INPUT_OPERATION, 6]"
  proof (rule nth_equalityI)
    show "length cycles = length [16, ERROR_INVALID_INPUT_OPERATION, 6 :: 32 word]"
      using b(2) by simp
    fix i assume "i < length cycles"
    then have "i = 0 \<or> i = 1 \<or> i = 2" using b(2) by auto
    then show "cycles ! i = [16, ERROR_INVALID_INPUT_OPERATION, 6] ! i"
      using n0 n1 n2 by auto
  qed
  then show ?thesis using b(1) by simp
qed


end
